theory Spec2Isabelle
  imports Complex_Main "HOL-Library.Sublist"
begin

section \<open>Dates: the ECMAScript time-value arithmetic behind \<open>Date\<close>\<close>

text \<open>
  The featured-ad flow computes its end date with \<open>new Date(now)\<close>, \<open>getDate\<close>,
  \<open>setDate\<close>, \<open>getMonth\<close> and \<open>setMonth\<close>. A \<open>Date\<close> holds a time value: an integer
  number of milliseconds since 1970-01-01T00:00:00Z. The definitions below follow the
  abstract operations of the ECMAScript language specification (section "Date Objects")
  by name. \<open>TimeClip\<close> is the identity on the range of dates a browser clock can show and
  is left out.
\<close>

definition msPerDay :: int where
  "msPerDay = 86400000"

definition Day :: "int \<Rightarrow> int" where
  "Day t = t div msPerDay"

definition TimeWithinDay :: "int \<Rightarrow> int" where
  "TimeWithinDay t = t mod msPerDay"

definition DaysInYear :: "int \<Rightarrow> int" where
  "DaysInYear y =
     (if y mod 4 \<noteq> 0 then 365
      else if y mod 100 \<noteq> 0 then 366
      else if y mod 400 \<noteq> 0 then 365
      else 366)"

definition DayFromYear :: "int \<Rightarrow> int" where
  "DayFromYear y =
     365 * (y - 1970) + (y - 1969) div 4 - (y - 1901) div 100 + (y - 1601) div 400"

text \<open>
  \<open>YearFromTime(t)\<close> is "the largest integer \<open>y\<close> such that \<open>TimeFromYear(y) \<le> t\<close>".
  It is computed here on the day number, by a search upwards from an estimate that
  never overshoots.
\<close>

definition yearEstimate :: "int \<Rightarrow> int" where
  "yearEstimate d = 1970 + (if 0 \<le> d then d div 366 else d div 365)"

lemma div_succ_int:
  fixes a n :: int
  assumes "0 < n"
  shows "(a + 1) div n = a div n + (if (a + 1) mod n = 0 then 1 else 0)"
proof (cases "a mod n = n - 1")
  case True
  have eq: "a + 1 = n * (a div n + 1) + 0"
    using mult_div_mod_eq [of n a] True by (simp add: algebra_simps)
  have "(a + 1) div n = a div n + 1"
    by (rule int_div_pos_eq [OF eq]) (use assms in simp_all)
  moreover have "(a + 1) mod n = 0"
    by (rule int_mod_pos_eq [OF eq]) (use assms in simp_all)
  ultimately show ?thesis by simp
next
  case False
  have r: "0 \<le> a mod n" "a mod n < n" using assms by simp_all
  have eq: "a + 1 = n * (a div n) + (a mod n + 1)"
    using mult_div_mod_eq [of n a] by (simp add: algebra_simps)
  have b: "0 \<le> a mod n + 1" "a mod n + 1 < n" using r False by linarith+
  have "(a + 1) div n = a div n"
    by (rule int_div_pos_eq [OF eq b])
  moreover have "(a + 1) mod n = a mod n + 1"
    by (rule int_mod_pos_eq [OF eq b])
  ultimately show ?thesis using r by simp
qed

lemma mod4_shift: "((y::int) - 1968) mod 4 = y mod 4"
proof -
  have "(y - 1968) mod 4 = (y + (- 492) * 4) mod 4" by simp
  also have "\<dots> = y mod 4" by (rule mod_mult_self1)
  finally show ?thesis .
qed

lemma mod100_shift: "((y::int) - 1900) mod 100 = y mod 100"
proof -
  have "(y - 1900) mod 100 = (y + (- 19) * 100) mod 100" by simp
  also have "\<dots> = y mod 100" by (rule mod_mult_self1)
  finally show ?thesis .
qed

lemma mod400_shift: "((y::int) - 1600) mod 400 = y mod 400"
proof -
  have "(y - 1600) mod 400 = (y + (- 4) * 400) mod 400" by simp
  also have "\<dots> = y mod 400" by (rule mod_mult_self1)
  finally show ?thesis .
qed

lemma mod400_imp_mod100: "(y::int) mod 400 = 0 \<Longrightarrow> y mod 100 = 0"
proof -
  assume "y mod 400 = 0"
  then have "400 dvd y" by (simp add: dvd_eq_mod_eq_0)
  moreover have "(100::int) dvd 400" by simp
  ultimately have "100 dvd y" by (rule dvd_trans [rotated])
  then show ?thesis by (simp add: dvd_eq_mod_eq_0)
qed

lemma mod100_imp_mod4: "(y::int) mod 100 = 0 \<Longrightarrow> y mod 4 = 0"
proof -
  assume "y mod 100 = 0"
  then have "100 dvd y" by (simp add: dvd_eq_mod_eq_0)
  moreover have "(4::int) dvd 100" by simp
  ultimately have "4 dvd y" by (rule dvd_trans [rotated])
  then show ?thesis by (simp add: dvd_eq_mod_eq_0)
qed

lemma DayFromYear_step: "DayFromYear (y + 1) = DayFromYear y + DaysInYear y"
proof -
  have a: "(y + 1 - 1969) div 4 = (y - 1969) div 4 + (if y mod 4 = 0 then 1 else 0)"
    using div_succ_int [of 4 "y - 1969"] mod4_shift [of y] by (simp add: algebra_simps)
  have b: "(y + 1 - 1901) div 100 = (y - 1901) div 100 + (if y mod 100 = 0 then 1 else 0)"
    using div_succ_int [of 100 "y - 1901"] mod100_shift [of y] by (simp add: algebra_simps)
  have c: "(y + 1 - 1601) div 400 = (y - 1601) div 400 + (if y mod 400 = 0 then 1 else 0)"
    using div_succ_int [of 400 "y - 1601"] mod400_shift [of y] by (simp add: algebra_simps)
  show ?thesis
    unfolding DayFromYear_def DaysInYear_def a b c
    using mod400_imp_mod100 [of y] mod100_imp_mod4 [of y] by auto
qed

lemma DaysInYear_bounds: "365 \<le> DaysInYear y" "DaysInYear y \<le> 366"
  unfolding DaysInYear_def by simp_all

function yearSearch :: "int \<Rightarrow> int \<Rightarrow> int" where
  "yearSearch d y = (if DayFromYear (y + 1) \<le> d then yearSearch d (y + 1) else y)"
  by pat_completeness auto
termination
proof (relation "measure (\<lambda>(d, y). nat (d - DayFromYear y))")
  show "wf (measure (\<lambda>(d, y). nat (d - DayFromYear y)))" by simp
next
  fix d y :: int
  assume "DayFromYear (y + 1) \<le> d"
  then show "((d, y + 1), (d, y)) \<in> measure (\<lambda>(d, y). nat (d - DayFromYear y))"
    using DaysInYear_bounds(1) [of y] by (simp add: DayFromYear_step)
qed

declare yearSearch.simps [simp del]

definition YearFromDay :: "int \<Rightarrow> int" where
  "YearFromDay d = yearSearch d (yearEstimate d)"

lemma DayFromYear_1970: "DayFromYear 1970 = 0"
  by (simp add: DayFromYear_def)

lemma DayFromYear_mono_step: "DayFromYear y < DayFromYear (y + 1)"
  using DaysInYear_bounds(1) [of y] by (simp add: DayFromYear_step)

lemma DayFromYear_mono: "a \<le> b \<Longrightarrow> DayFromYear a \<le> DayFromYear b"
proof (induction b rule: int_ge_induct)
  case base
  show ?case by simp
next
  case (step i)
  then show ?case using DayFromYear_mono_step [of i] by simp
qed

lemma estimate_upper: "0 \<le> k \<Longrightarrow> DayFromYear (1970 + k) \<le> 366 * k"
proof (induction k rule: int_ge_induct)
  case base
  show ?case by (simp add: DayFromYear_1970)
next
  case (step i)
  have "DayFromYear (1970 + (i + 1)) = DayFromYear (1970 + i) + DaysInYear (1970 + i)"
    using DayFromYear_step [of "1970 + i"] by (simp add: add.assoc)
  then show ?case using step DaysInYear_bounds(2) [of "1970 + i"] by simp
qed

lemma estimate_lower: "k \<le> 0 \<Longrightarrow> DayFromYear (1970 + k) \<le> 365 * k"
proof (induction k rule: int_le_induct)
  case base
  show ?case by (simp add: DayFromYear_1970)
next
  case (step i)
  have "DayFromYear (1970 + i) = DayFromYear (1970 + (i - 1)) + DaysInYear (1970 + (i - 1))"
    using DayFromYear_step [of "1970 + (i - 1)"] by (simp add: algebra_simps)
  then show ?case using step DaysInYear_bounds(1) [of "1970 + (i - 1)"] by simp
qed

lemma yearEstimate_le: "DayFromYear (yearEstimate d) \<le> d"
proof (cases "0 \<le> d")
  case True
  have "366 * (d div 366) \<le> d"
    using mult_div_mod_eq [of 366 d] pos_mod_sign [of 366 d] by linarith
  moreover have "DayFromYear (1970 + d div 366) \<le> 366 * (d div 366)"
    using True by (intro estimate_upper) (simp add: pos_imp_zdiv_nonneg_iff)
  ultimately show ?thesis using True by (simp add: yearEstimate_def)
next
  case False
  have "365 * (d div 365) \<le> d"
    using mult_div_mod_eq [of 365 d] pos_mod_sign [of 365 d] by linarith
  moreover have "DayFromYear (1970 + d div 365) \<le> 365 * (d div 365)"
    using False by (intro estimate_lower) (simp add: div_int_pos_iff not_le zdiv_mono1 [of d 0 365, simplified])
  ultimately show ?thesis using False by (simp add: yearEstimate_def)
qed

lemma yearSearch_bounds:
  "DayFromYear y \<le> d \<Longrightarrow>
     DayFromYear (yearSearch d y) \<le> d \<and> d < DayFromYear (yearSearch d y + 1)"
proof (induction d y rule: yearSearch.induct)
  case (1 d y)
  show ?case
  proof (cases "DayFromYear (y + 1) \<le> d")
    case True
    then show ?thesis using "1.IH" by (subst (1 2) yearSearch.simps) simp
  next
    case False
    then show ?thesis using "1.prems" by (subst (1 2) yearSearch.simps) simp
  qed
qed

lemma YearFromDay_bounds:
  "DayFromYear (YearFromDay d) \<le> d" "d < DayFromYear (YearFromDay d + 1)"
  using yearSearch_bounds [OF yearEstimate_le [of d]] by (simp_all add: YearFromDay_def)

lemma YearFromDay_unique:
  assumes "DayFromYear y \<le> d" and "d < DayFromYear (y + 1)"
  shows "YearFromDay d = y"
proof (rule ccontr)
  assume ne: "YearFromDay d \<noteq> y"
  let ?z = "YearFromDay d"
  show False
  proof (cases "?z < y")
    case True
    then have "DayFromYear (?z + 1) \<le> DayFromYear y" by (intro DayFromYear_mono) simp
    then show False using YearFromDay_bounds(2) [of d] assms(1) by linarith
  next
    case False
    then have "y + 1 \<le> ?z" using ne by simp
    then have "DayFromYear (y + 1) \<le> DayFromYear ?z" by (rule DayFromYear_mono)
    then show False using YearFromDay_bounds(1) [of d] assms(2) by linarith
  qed
qed

text \<open>
  \<open>InLeapYear\<close>, \<open>MonthFromTime\<close> and \<open>DateFromTime\<close>, on the day number. Months are
  numbered from 0 (January) to 11 (December), as \<open>getMonth\<close> returns them.
  \<open>monthStart leap m\<close> is the day within the year on which month \<open>m\<close> starts: the
  boundaries of ECMAScript's table for \<open>MonthFromTime\<close>, with 12 standing for the end
  of the year.
\<close>

definition InLeapYear :: "int \<Rightarrow> int" where
  "InLeapYear y = (if DaysInYear y = 365 then 0 else 1)"

definition monthStart :: "int \<Rightarrow> int \<Rightarrow> int" where
  "monthStart leap m =
     (if m = 0 then 0
      else if m = 1 then 31
      else if m = 2 then 59 + leap
      else if m = 3 then 90 + leap
      else if m = 4 then 120 + leap
      else if m = 5 then 151 + leap
      else if m = 6 then 181 + leap
      else if m = 7 then 212 + leap
      else if m = 8 then 243 + leap
      else if m = 9 then 273 + leap
      else if m = 10 then 304 + leap
      else if m = 11 then 334 + leap
      else 365 + leap)"

definition DaysInMonth :: "int \<Rightarrow> int \<Rightarrow> int" where
  "DaysInMonth y m = monthStart (InLeapYear y) (m + 1) - monthStart (InLeapYear y) m"

definition DayWithinYear :: "int \<Rightarrow> int" where
  "DayWithinYear d = d - DayFromYear (YearFromDay d)"

definition MonthFromDay :: "int \<Rightarrow> int" where
  "MonthFromDay d =
     (let dwy = DayWithinYear d; leap = InLeapYear (YearFromDay d) in
      if dwy < 31 then 0
      else if dwy < 59 + leap then 1
      else if dwy < 90 + leap then 2
      else if dwy < 120 + leap then 3
      else if dwy < 151 + leap then 4
      else if dwy < 181 + leap then 5
      else if dwy < 212 + leap then 6
      else if dwy < 243 + leap then 7
      else if dwy < 273 + leap then 8
      else if dwy < 304 + leap then 9
      else if dwy < 334 + leap then 10
      else 11)"

definition DateFromDay :: "int \<Rightarrow> int" where
  "DateFromDay d =
     DayWithinYear d - monthStart (InLeapYear (YearFromDay d)) (MonthFromDay d) + 1"

definition YearFromTime :: "int \<Rightarrow> int" where
  "YearFromTime t = YearFromDay (Day t)"

definition MonthFromTime :: "int \<Rightarrow> int" where
  "MonthFromTime t = MonthFromDay (Day t)"

definition DateFromTime :: "int \<Rightarrow> int" where
  "DateFromTime t = DateFromDay (Day t)"

text \<open>
  \<open>MakeDay(year, month, date)\<close>: the day number of the first of month
  \<open>month mod 12\<close> in year \<open>year + floor(month / 12)\<close>, plus \<open>date - 1\<close>. A \<open>date\<close>
  beyond the month's length runs on into the following months; this is how \<open>setDate\<close>
  and \<open>setMonth\<close> normalise.
\<close>

definition MakeDay :: "int \<Rightarrow> int \<Rightarrow> int \<Rightarrow> int" where
  "MakeDay year month date =
     (let ym = year + month div 12; mn = month mod 12 in
      DayFromYear ym + monthStart (InLeapYear ym) mn + date - 1)"

definition MakeDate :: "int \<Rightarrow> int \<Rightarrow> int" where
  "MakeDate day time = day * msPerDay + time"

text \<open>
  The browser's time zone. Its offset from UTC, in milliseconds, changes at the zone's
  clock changes, so it is a function of the moment: \<open>offsetAtUTC\<close> is
  \<open>LocalTZA(t, true)\<close>, the offset in force at the instant \<open>t\<close>, and \<open>offsetAtLocal\<close> is
  \<open>LocalTZA(t, false)\<close>, the offset the zone gives to the local time \<open>t\<close> (at a local time
  that a clock change skips or repeats, the offset from before the change). Then
  \<open>LocalTime(t) = t + LocalTZA(t, true)\<close> and \<open>UTC(t) = t - LocalTZA(t, false)\<close>. Nothing is
  assumed of the two functions.
\<close>

record Zone =
  offsetAtUTC :: "int \<Rightarrow> int"
  offsetAtLocal :: "int \<Rightarrow> int"

definition LocalTime :: "Zone \<Rightarrow> int \<Rightarrow> int" where
  "LocalTime z t = t + offsetAtUTC z t"

definition UTC :: "Zone \<Rightarrow> int \<Rightarrow> int" where
  "UTC z t = t - offsetAtLocal z t"

text \<open>The methods of \<open>Date.prototype\<close> the code calls, on the time value.\<close>

definition getFullYear :: "Zone \<Rightarrow> int \<Rightarrow> int" where
  "getFullYear z t = YearFromTime (LocalTime z t)"

definition getMonth :: "Zone \<Rightarrow> int \<Rightarrow> int" where
  "getMonth z t = MonthFromTime (LocalTime z t)"

definition getDate :: "Zone \<Rightarrow> int \<Rightarrow> int" where
  "getDate z t = DateFromTime (LocalTime z t)"

definition setDate :: "Zone \<Rightarrow> int \<Rightarrow> int \<Rightarrow> int" where
  "setDate z t dt =
     (let lt = LocalTime z t in
      UTC z (MakeDate (MakeDay (YearFromTime lt) (MonthFromTime lt) dt) (TimeWithinDay lt)))"

definition setMonth :: "Zone \<Rightarrow> int \<Rightarrow> int \<Rightarrow> int" where
  "setMonth z t m =
     (let lt = LocalTime z t in
      UTC z (MakeDate (MakeDay (YearFromTime lt) m (DateFromTime lt)) (TimeWithinDay lt)))"


lemma InLeapYear_cases: "InLeapYear y = 0 \<or> InLeapYear y = 1"
  by (simp add: InLeapYear_def)

lemma DaysInYear_leap: "DaysInYear y = 365 + InLeapYear y"
  using DaysInYear_bounds [of y] by (auto simp: InLeapYear_def DaysInYear_def)

lemma DayWithinYear_bounds:
  "0 \<le> DayWithinYear d" "DayWithinYear d < 365 + InLeapYear (YearFromDay d)"
  using YearFromDay_bounds [of d] DayFromYear_step [of "YearFromDay d"]
  by (simp_all add: DayWithinYear_def DaysInYear_leap)

lemma MonthFromDay_range: "0 \<le> MonthFromDay d" "MonthFromDay d \<le> 11"
  by (simp_all add: MonthFromDay_def Let_def)

lemma DateFromDay_ge1: "1 \<le> DateFromDay d"
  using DayWithinYear_bounds(1) [of d] InLeapYear_cases [of "YearFromDay d"]
  by (auto simp: DateFromDay_def MonthFromDay_def monthStart_def Let_def)

lemma MakeDay_in_month:
  assumes "0 \<le> m" "m \<le> 11"
  shows "MakeDay y m dt = DayFromYear y + monthStart (InLeapYear y) m + dt - 1"
proof -
  have "m div 12 = 0" "m mod 12 = m" using assms by simp_all
  then show ?thesis by (simp add: MakeDay_def Let_def)
qed

lemma MakeDay_of_fields:
  "MakeDay (YearFromDay d) (MonthFromDay d) (DateFromDay d + n) = d + n"
  by (simp add: MakeDay_in_month [OF MonthFromDay_range] DateFromDay_def DayWithinYear_def)

lemma month_cases:
  "0 \<le> (m::int) \<Longrightarrow> m \<le> 11 \<Longrightarrow>
     m = 0 \<or> m = 1 \<or> m = 2 \<or> m = 3 \<or> m = 4 \<or> m = 5 \<or> m = 6
       \<or> m = 7 \<or> m = 8 \<or> m = 9 \<or> m = 10 \<or> m = 11"
  by arith

lemma monthStart_mono:
  assumes "0 \<le> m" "m \<le> 11" "0 \<le> leap"
  shows "0 \<le> monthStart leap m" "monthStart leap m < monthStart leap (m + 1)"
    "monthStart leap (m + 1) \<le> 365 + leap"
  using month_cases [OF assms(1,2)] assms(3) by (auto simp: monthStart_def)

lemma fields_of_MakeDay:
  assumes m: "0 \<le> m" "m \<le> 11" and dt: "1 \<le> dt" "dt \<le> DaysInMonth y m"
  shows "YearFromDay (MakeDay y m dt) = y"
    and "MonthFromDay (MakeDay y m dt) = m"
    and "DateFromDay (MakeDay y m dt) = dt"
proof -
  let ?l = "InLeapYear y"
  let ?D = "MakeDay y m dt"
  have l: "0 \<le> ?l" using InLeapYear_cases [of y] by auto
  have D: "?D = DayFromYear y + monthStart ?l m + dt - 1"
    by (rule MakeDay_in_month [OF m])
  have lo: "monthStart ?l m \<le> ?D - DayFromYear y" using dt(1) by (simp add: D)
  have hi: "?D - DayFromYear y < monthStart ?l (m + 1)"
    using dt(2) by (simp add: D DaysInMonth_def)
  have "DayFromYear y \<le> ?D" using lo monthStart_mono(1) [OF m l] by linarith
  moreover have "?D < DayFromYear (y + 1)"
    using hi monthStart_mono(3) [OF m l] by (simp add: DayFromYear_step DaysInYear_leap)
  ultimately show yr: "YearFromDay ?D = y" by (rule YearFromDay_unique)
  have dwy: "DayWithinYear ?D = ?D - DayFromYear y" by (simp add: DayWithinYear_def yr)
  consider "m = 0" | "m = 1" | "m = 2" | "m = 3" | "m = 4" | "m = 5" | "m = 6"
    | "m = 7" | "m = 8" | "m = 9" | "m = 10" | "m = 11"
    using month_cases [OF m] by blast
  then show mo: "MonthFromDay ?D = m"
  proof cases
    case 1 then show ?thesis using lo hi l unfolding MonthFromDay_def dwy yr Let_def by (simp add: monthStart_def)
  next
    case 2 then show ?thesis using lo hi l unfolding MonthFromDay_def dwy yr Let_def by (simp add: monthStart_def)
  next
    case 3 then show ?thesis using lo hi l unfolding MonthFromDay_def dwy yr Let_def by (simp add: monthStart_def)
  next
    case 4 then show ?thesis using lo hi l unfolding MonthFromDay_def dwy yr Let_def by (simp add: monthStart_def)
  next
    case 5 then show ?thesis using lo hi l unfolding MonthFromDay_def dwy yr Let_def by (simp add: monthStart_def)
  next
    case 6 then show ?thesis using lo hi l unfolding MonthFromDay_def dwy yr Let_def by (simp add: monthStart_def)
  next
    case 7 then show ?thesis using lo hi l unfolding MonthFromDay_def dwy yr Let_def by (simp add: monthStart_def)
  next
    case 8 then show ?thesis using lo hi l unfolding MonthFromDay_def dwy yr Let_def by (simp add: monthStart_def)
  next
    case 9 then show ?thesis using lo hi l unfolding MonthFromDay_def dwy yr Let_def by (simp add: monthStart_def)
  next
    case 10 then show ?thesis using lo hi l unfolding MonthFromDay_def dwy yr Let_def by (simp add: monthStart_def)
  next
    case 11 then show ?thesis using lo hi l unfolding MonthFromDay_def dwy yr Let_def by (simp add: monthStart_def)
  next
    case 12 then show ?thesis using lo hi l unfolding MonthFromDay_def dwy yr Let_def by (simp add: monthStart_def)
  qed
  show "DateFromDay ?D = dt"
    by (simp add: DateFromDay_def dwy yr mo) (simp add: D)
qed

lemma msPerDay_pos: "0 < msPerDay"
  by (simp add: msPerDay_def)

lemma TimeWithinDay_range: "0 \<le> TimeWithinDay t" "TimeWithinDay t < msPerDay"
  using msPerDay_pos by (simp_all add: TimeWithinDay_def)

lemma Day_MakeDate: "Day (MakeDate day (TimeWithinDay t)) = day"
proof -
  have "MakeDate day (TimeWithinDay t) = msPerDay * day + TimeWithinDay t"
    by (simp add: MakeDate_def)
  then show ?thesis
    unfolding Day_def using TimeWithinDay_range [of t] by (rule int_div_pos_eq)
qed

lemma TimeWithinDay_MakeDate: "TimeWithinDay (MakeDate day (TimeWithinDay t)) = TimeWithinDay t"
proof -
  have "MakeDate day (TimeWithinDay t) = msPerDay * day + TimeWithinDay t"
    by (simp add: MakeDate_def)
  then show ?thesis
    unfolding TimeWithinDay_def [of "MakeDate day (TimeWithinDay t)"]
    using TimeWithinDay_range [of t] by (rule int_mod_pos_eq)
qed

lemma MakeDate_Day: "MakeDate (Day t) (TimeWithinDay t) = t"
  by (simp add: MakeDate_def Day_def TimeWithinDay_def)

lemma setDate_getDate_plus:
  "setDate z t (getDate z t + n) = UTC z (LocalTime z t + n * msPerDay)"
proof -
  let ?lt = "LocalTime z t"
  have "MakeDate (Day ?lt + n) (TimeWithinDay ?lt) = ?lt + n * msPerDay"
    using MakeDate_Day [of ?lt] by (simp add: MakeDate_def algebra_simps)
  then show ?thesis
    by (simp add: setDate_def getDate_def Let_def YearFromTime_def MonthFromTime_def
        DateFromTime_def MakeDay_of_fields)
qed

section \<open>Featured ads page: \<open>handlePaymentConfirm\<close>\<close>

text \<open>
  \<open>src/pages/franchisor/Franchises.tsx\<close>, component \<open>FeaturedAds\<close>. A pricing tier is a
  row of \<open>advertising_settings.featured_pricing\<close>; its price is a JSON number that the
  handler only copies. Dates are kept as time values: \<open>toISOString\<close> prints the time
  value in UTC and loses nothing of it.
\<close>

record PricingTier =
  duration :: string
  price :: rat

record FeaturedAdRow =
  franchise_id :: string
  amount :: rat
  start_date :: int
  end_date :: int
  status :: string
  payment_status :: string

record CheckoutBody =
  bodyAdId :: string
  bodyFranchiseId :: string
  bodyAmount :: rat
  bodyDuration :: string
  bodyUserId :: string

text \<open>The component state the handler reads.\<close>

record FeaturedAdsState =
  selectedFranchise :: string
  selectedDuration :: string
  pricingTiers :: "PricingTier list"

text \<open>
  What the world answers during one run of the handler: the clock and the time zone,
  the result of the insert (an error message, or the id of the new row), the signed-in
  user, the answer of \<open>POST /api/create-checkout-session\<close> (a thrown message when the
  request or \<open>response.json()\<close> fails, otherwise \<open>response.ok\<close>, \<open>responseData.error\<close>
  and \<open>responseData.sessionId\<close>), whether Stripe loaded, and the error of the redirect.
\<close>

record CheckoutResponse =
  responseOk :: bool
  responseError :: "string option"
  sessionId :: string

record FeaturedAdsEnv =
  envZone :: Zone
  envNow :: int
  insertResult :: "string + string"
  authUser :: "string option"
  checkoutResponse :: "string + CheckoutResponse"
  stripeLoaded :: bool
  redirectError :: "string option"

text \<open>Everything the handler does, in order: state setters, requests and log lines.\<close>

datatype ad_effect =
    SetProcessing bool
  | SetError string
  | InsertFeaturedAd FeaturedAdRow
  | GetUser
  | PostCheckoutSession CheckoutBody
  | RedirectToCheckout string
  | SetSelectedFranchise string
  | SetSelectedDuration string
  | SetIsPaymentModalOpen bool
  | ConsoleError string

text \<open>
  Lines 516 to 532: \<open>let endDate = new Date(now)\<close> and the \<open>switch\<close> on the selected
  duration, which has no \<open>default\<close> branch.
\<close>

definition computeEndDate :: "Zone \<Rightarrow> int \<Rightarrow> string \<Rightarrow> int" where
  "computeEndDate z now dur =
     (let endDate = now in
      if dur = ''1w'' then setDate z endDate (getDate z endDate + 7)
      else if dur = ''2w'' then setDate z endDate (getDate z endDate + 14)
      else if dur = ''1m'' then setMonth z endDate (getMonth z endDate + 1)
      else if dur = ''6m'' then setMonth z endDate (getMonth z endDate + 6)
      else endDate)"

text \<open>\<open>a || b\<close> on strings: the empty string is falsy.\<close>

definition orElse :: "string \<Rightarrow> string \<Rightarrow> string" where
  "orElse a b = (if a = [] then b else a)"

text \<open>The same on a value that may be null or undefined.\<close>

definition optOr :: "string option \<Rightarrow> string \<Rightarrow> string" where
  "optOr a b = (case a of None \<Rightarrow> b | Some s \<Rightarrow> orElse s b)"

text \<open>
  The body of the \<open>try\<close> block: the effects it performs and, when it throws, the message
  of the error thrown.
\<close>

definition handlePaymentConfirm_try ::
  "FeaturedAdsEnv \<Rightarrow> FeaturedAdsState \<Rightarrow> ad_effect list \<times> string option" where
  "handlePaymentConfirm_try env st =
     (case find (\<lambda>tier. duration tier = selectedDuration st) (pricingTiers st) of
        None \<Rightarrow> ([], Some ''Invalid duration selected'')
      | Some selectedTier \<Rightarrow>
          (let now = envNow env;
               endDate = computeEndDate (envZone env) now (selectedDuration st);
               row = \<lparr>franchise_id = selectedFranchise st, amount = price selectedTier,
                      start_date = now, end_date = endDate,
                      status = ''pending_payment'', payment_status = ''pending''\<rparr>
           in case insertResult env of
                Inl createError \<Rightarrow> ([InsertFeaturedAd row], Some createError)
              | Inr ad \<Rightarrow>
                  (case authUser env of
                     None \<Rightarrow> ([InsertFeaturedAd row, GetUser], Some ''Not authenticated'')
                   | Some user \<Rightarrow>
                       (let body = \<lparr>bodyAdId = ad, bodyFranchiseId = selectedFranchise st,
                                     bodyAmount = price selectedTier,
                                     bodyDuration = selectedDuration st, bodyUserId = user\<rparr>;
                            sent = [InsertFeaturedAd row, GetUser, PostCheckoutSession body]
                        in case checkoutResponse env of
                             Inl thrown \<Rightarrow> (sent, Some thrown)
                           | Inr response \<Rightarrow>
                               if \<not> responseOk response
                               then (sent, Some (orElse (case responseError response of
                                                          None \<Rightarrow> [] | Some e \<Rightarrow> e)
                                                        ''Failed to create checkout session''))
                               else if \<not> stripeLoaded env
                               then (sent, Some ''Stripe failed to load'')
                               else (case redirectError env of
                                       Some stripeError \<Rightarrow>
                                         (sent @ [RedirectToCheckout (sessionId response)],
                                          Some stripeError)
                                     | None \<Rightarrow>
                                         (sent @ [RedirectToCheckout (sessionId response),
                                                  SetSelectedFranchise [],
                                                  SetSelectedDuration [],
                                                  SetIsPaymentModalOpen False], None))))))"

definition handlePaymentConfirm :: "FeaturedAdsEnv \<Rightarrow> FeaturedAdsState \<Rightarrow> ad_effect list" where
  "handlePaymentConfirm env st =
     (let (done, thrown) = handlePaymentConfirm_try env st in
      [SetProcessing True, SetError []] @ done
      @ (case thrown of
           None \<Rightarrow> []
         | Some message \<Rightarrow>
             [ConsoleError message,
              SetError (orElse message ''Failed to process payment. Please try again.'')])
      @ [SetProcessing False])"

text \<open>Observations on a run: the rows it asked to insert, and the error it left on screen.\<close>

fun insertedAds :: "ad_effect list \<Rightarrow> FeaturedAdRow list" where
  "insertedAds [] = []"
| "insertedAds (InsertFeaturedAd row # es) = row # insertedAds es"
| "insertedAds (_ # es) = insertedAds es"

fun errorShown :: "string \<Rightarrow> ad_effect list \<Rightarrow> string" where
  "errorShown e [] = e"
| "errorShown e (SetError m # es) = errorShown m es"
| "errorShown e (_ # es) = errorShown e es"



text \<open>
  The offset table as the specification words it: one or two weeks are a number of
  days, one or six months a number of calendar months. Both are read on the calendar
  and the clock of the browser's zone, which is where \<open>setDate\<close> and \<open>setMonth\<close> work: an
  end date is the start plus \<open>n\<close> days when its local time is \<open>n\<close> times 24 hours after the
  start's local time (the same time of day, \<open>n\<close> days on); it is the start plus \<open>n\<close>
  calendar months when, read in local time, it lies \<open>n\<close> months later in the calendar on
  the same day of the month at the same time of day.
\<close>

datatype offset = Days int | Months int

definition spec_fixedOffset :: "string \<Rightarrow> offset option" where
  "spec_fixedOffset dur =
     (if dur = ''1w'' then Some (Days 7)
      else if dur = ''2w'' then Some (Days 14)
      else if dur = ''1m'' then Some (Months 1)
      else if dur = ''6m'' then Some (Months 6)
      else None)"

definition monthIndex :: "Zone \<Rightarrow> int \<Rightarrow> int" where
  "monthIndex z t = 12 * getFullYear z t + getMonth z t"

fun spec_startPlus :: "Zone \<Rightarrow> offset \<Rightarrow> int \<Rightarrow> int \<Rightarrow> bool" where
  "spec_startPlus z (Days n) s e = (LocalTime z e = LocalTime z s + n * msPerDay)"
| "spec_startPlus z (Months n) s e =
     (monthIndex z e = monthIndex z s + n \<and> getDate z e = getDate z s
      \<and> TimeWithinDay (LocalTime z e) = TimeWithinDay (LocalTime z s))"

text \<open>
  The two conditions under which the code meets the table. \<open>dayExistsAfter\<close>: the start's
  day of the month exists in the month a month offset leads to. \<open>localTimeExists\<close>: the
  zone shows the local time \<open>x\<close> at the instant \<open>UTC\<close> picks for it, which fails only for
  a local time that a forward clock change skips; \<open>targetLocalTime\<close> is the local time
  the offset leads to from the start.
\<close>

fun dayExistsAfter :: "Zone \<Rightarrow> offset \<Rightarrow> int \<Rightarrow> bool" where
  "dayExistsAfter z (Days n) s = True"
| "dayExistsAfter z (Months n) s =
     (getDate z s
        \<le> DaysInMonth (getFullYear z s + (getMonth z s + n) div 12)
                       ((getMonth z s + n) mod 12))"

definition localTimeExists :: "Zone \<Rightarrow> int \<Rightarrow> bool" where
  "localTimeExists z x = (LocalTime z (UTC z x) = x)"

fun targetLocalTime :: "Zone \<Rightarrow> offset \<Rightarrow> int \<Rightarrow> int" where
  "targetLocalTime z (Days n) s = LocalTime z s + n * msPerDay"
| "targetLocalTime z (Months n) s =
     MakeDate (MakeDay (getFullYear z s) (getMonth z s + n) (getDate z s))
       (TimeWithinDay (LocalTime z s))"

text \<open>
  Zones to run the handler in: one with a fixed offset, and one that is five hours
  behind UTC until 9 March 2025, 02:00 local time, and four hours behind from then on
  (clocks go forward one hour, as they do in New York that night).
\<close>

definition fixedZone :: "int \<Rightarrow> Zone" where
  "fixedZone off = \<lparr>offsetAtUTC = (\<lambda>t. off), offsetAtLocal = (\<lambda>t. off)\<rparr>"

definition springForwardZone :: Zone where
  "springForwardZone =
     \<lparr>offsetAtUTC = (\<lambda>t. if t < 1741503600000 then - 18000000 else - 14400000),
      offsetAtLocal = (\<lambda>t. if t < 1741489200000 then - 18000000 else - 14400000)\<rparr>"

lemma insertedAds_append: "insertedAds (xs @ ys) = insertedAds xs @ insertedAds ys"
  by (induction xs rule: insertedAds.induct) simp_all

lemma handlePaymentConfirm_inserts:
  assumes "find (\<lambda>tier. duration tier = selectedDuration st) (pricingTiers st) = Some tier"
  shows "insertedAds (handlePaymentConfirm env st) =
           [\<lparr>franchise_id = selectedFranchise st, amount = price tier,
             start_date = envNow env,
             end_date = computeEndDate (envZone env) (envNow env) (selectedDuration st),
             status = ''pending_payment'', payment_status = ''pending''\<rparr>]"
  using assms
  by (simp add: handlePaymentConfirm_def handlePaymentConfirm_try_def Let_def
      insertedAds_append split: sum.splits option.splits)

lemma handlePaymentConfirm_no_tier:
  assumes "find (\<lambda>tier. duration tier = selectedDuration st) (pricingTiers st) = None"
  shows "handlePaymentConfirm env st =
           [SetProcessing True, SetError [], ConsoleError ''Invalid duration selected'',
            SetError ''Invalid duration selected'', SetProcessing False]"
  using assms
  by (simp add: handlePaymentConfirm_def handlePaymentConfirm_try_def orElse_def)

lemma MakeDay_normal: "MakeDay y mo dt = MakeDay (y + mo div 12) (mo mod 12) dt"
  by (simp add: MakeDay_def Let_def)

lemma setMonth_fields:
  fixes z :: Zone and t n :: int
  defines "ym \<equiv> getFullYear z t + (getMonth z t + n) div 12"
    and "mn \<equiv> (getMonth z t + n) mod 12"
  assumes fits: "getDate z t \<le> DaysInMonth ym mn"
    and shown: "localTimeExists z (targetLocalTime z (Months n) t)"
  shows "getFullYear z (setMonth z t (getMonth z t + n)) = ym"
    and "getMonth z (setMonth z t (getMonth z t + n)) = mn"
    and "getDate z (setMonth z t (getMonth z t + n)) = getDate z t"
    and "TimeWithinDay (LocalTime z (setMonth z t (getMonth z t + n)))
           = TimeWithinDay (LocalTime z t)"
proof -
  let ?lt = "LocalTime z t"
  let ?e = "setMonth z t (getMonth z t + n)"
  let ?D = "MakeDay ym mn (getDate z t)"
  have target: "targetLocalTime z (Months n) t = MakeDate ?D (TimeWithinDay ?lt)"
    unfolding ym_def mn_def by (simp add: MakeDay_normal [symmetric])
  have "?e = UTC z (targetLocalTime z (Months n) t)"
    by (simp add: setMonth_def Let_def getFullYear_def getMonth_def getDate_def)
  then have "LocalTime z ?e = targetLocalTime z (Months n) t"
    using shown by (simp add: localTimeExists_def)
  then have le: "LocalTime z ?e = MakeDate ?D (TimeWithinDay ?lt)"
    by (simp only: target)
  have day: "Day (LocalTime z ?e) = ?D"
    by (simp add: le Day_MakeDate)
  have mn: "0 \<le> mn" "mn \<le> 11" by (simp_all add: mn_def)
  have dt: "1 \<le> getDate z t"
    by (simp add: getDate_def DateFromTime_def DateFromDay_ge1)
  note f = fields_of_MakeDay [OF mn dt fits]
  show "getFullYear z ?e = ym"
    unfolding getFullYear_def [of z ?e] YearFromTime_def day by (rule f(1))
  show "getMonth z ?e = mn"
    unfolding getMonth_def [of z ?e] MonthFromTime_def day by (rule f(2))
  show "getDate z ?e = getDate z t"
    unfolding getDate_def [of z ?e] DateFromTime_def day by (rule f(3))
  show "TimeWithinDay (LocalTime z ?e) = TimeWithinDay ?lt"
    by (simp add: le TimeWithinDay_MakeDate)
qed

lemma computeEndDate_offset:
  assumes "spec_fixedOffset dur = Some off"
    and "dayExistsAfter z off now"
    and "localTimeExists z (targetLocalTime z off now)"
  shows "spec_startPlus z off now (computeEndDate z now dur)"
proof (cases off)
  case (Days n)
  with assms(1) have "(dur = ''1w'' \<and> n = 7) \<or> (dur = ''2w'' \<and> n = 14)"
    by (auto simp: spec_fixedOffset_def split: if_splits)
  then have "computeEndDate z now dur = UTC z (LocalTime z now + n * msPerDay)"
    by (auto simp: computeEndDate_def setDate_getDate_plus)
  then show ?thesis
    using assms(3) Days by (simp add: localTimeExists_def)
next
  case (Months n)
  with assms(1) have d: "(dur = ''1m'' \<and> n = 1) \<or> (dur = ''6m'' \<and> n = 6)"
    by (auto simp: spec_fixedOffset_def split: if_splits)
  then have e: "computeEndDate z now dur = setMonth z now (getMonth z now + n)"
    by (auto simp: computeEndDate_def)
  have fits: "getDate z now
      \<le> DaysInMonth (getFullYear z now + (getMonth z now + n) div 12)
           ((getMonth z now + n) mod 12)"
    using assms(2) Months by simp
  have shown: "localTimeExists z (targetLocalTime z (Months n) now)"
    using assms(3) Months by simp
  note f = setMonth_fields [OF fits shown]
  have "monthIndex z (setMonth z now (getMonth z now + n)) = monthIndex z now + n"
    unfolding monthIndex_def f(1,2)
    using mult_div_mod_eq [of 12 "getMonth z now + n"] by (simp add: algebra_simps)
  then show ?thesis using Months f(3,4) by (simp add: e)
qed

text \<open>
  Between two instants that are \<open>n\<close> local days apart, \<open>n\<close> times 24 hours pass, less what
  the zone's offset gained in between.
\<close>

lemma spec_startPlus_days_elapsed:
  "spec_startPlus z (Days n) s e
     \<longleftrightarrow> e = s + n * msPerDay - (offsetAtUTC z e - offsetAtUTC z s)"
  by (auto simp: LocalTime_def)

lemma fixedZone_exists: "localTimeExists (fixedZone off) x"
  by (simp add: localTimeExists_def LocalTime_def UTC_def fixedZone_def)

definition demoTiers :: "PricingTier list" where
  "demoTiers =
     [\<lparr>duration = ''1w'', price = 100\<rparr>, \<lparr>duration = ''2w'', price = 180\<rparr>,
      \<lparr>duration = ''1m'', price = 300\<rparr>, \<lparr>duration = ''6m'', price = 1500\<rparr>,
      \<lparr>duration = ''3m'', price = 800\<rparr>]"

definition demoEnv :: "Zone \<Rightarrow> int \<Rightarrow> FeaturedAdsEnv" where
  "demoEnv z now =
     \<lparr>envZone = z, envNow = now, insertResult = Inr ''ad-1'', authUser = Some ''user-1'',
      checkoutResponse = Inr \<lparr>responseOk = True, responseError = None, sessionId = ''cs-1''\<rparr>,
      stripeLoaded = True, redirectError = None\<rparr>"

definition demoState :: "string \<Rightarrow> FeaturedAdsState" where
  "demoState dur =
     \<lparr>selectedFranchise = ''franchise-1'', selectedDuration = dur, pricingTiers = demoTiers\<rparr>"

text \<open>
  Claim C1, as amended. For a purchase whose selected duration is one of \<open>1w\<close>, \<open>2w\<close>,
  \<open>1m\<close>, \<open>6m\<close> and has a pricing tier, the row \<open>handlePaymentConfirm\<close> inserts starts at
  the current time and ends at the start plus the fixed offset of the duration, taken
  on the calendar and clock of the browser's zone: the same local time of day 7 or 14
  days later, or the same day of the month and local time of day 1 or 6 calendar months
  later. This holds whenever the start's day of the month exists in the target month
  and no clock change of the zone skips the target local time.
\<close>

theorem handlePaymentConfirm_end_date:
  assumes "find (\<lambda>tier. duration tier = selectedDuration st) (pricingTiers st) = Some tier"
    and "spec_fixedOffset (selectedDuration st) = Some off"
    and "dayExistsAfter (envZone env) off (envNow env)"
    and "localTimeExists (envZone env) (targetLocalTime (envZone env) off (envNow env))"
  shows "\<exists>row. insertedAds (handlePaymentConfirm env st) = [row]
           \<and> start_date row = envNow env
           \<and> spec_startPlus (envZone env) off (start_date row) (end_date row)"
  using computeEndDate_offset [OF assms(2,3,4)]
  by (simp add: handlePaymentConfirm_inserts [OF assms(1)])

text \<open>
  An instance across a clock change: one month from 15 February 2025, 12:00 local time
  (17:00 UTC), in the zone that goes from five to four hours behind UTC on 9 March. The
  end date is 15 March 2025, 12:00 local time (16:00 UTC).
\<close>

theorem handlePaymentConfirm_end_date_witness:
  "(\<exists>row. insertedAds
             (handlePaymentConfirm (demoEnv springForwardZone 1739638800000) (demoState ''1m''))
            = [row]
         \<and> start_date row = envNow (demoEnv springForwardZone 1739638800000)
         \<and> spec_startPlus (envZone (demoEnv springForwardZone 1739638800000)) (Months 1)
              (start_date row) (end_date row))
   \<and> insertedAds
        (handlePaymentConfirm (demoEnv springForwardZone 1739638800000) (demoState ''1m''))
      = [\<lparr>franchise_id = ''franchise-1'', amount = 300,
          start_date = 1739638800000, end_date = 1742054400000,
          status = ''pending_payment'', payment_status = ''pending''\<rparr>]"
proof -
  have tier: "find (\<lambda>tier. duration tier = selectedDuration (demoState ''1m''))
                (pricingTiers (demoState ''1m'')) = Some \<lparr>duration = ''1m'', price = 300\<rparr>"
    by (simp add: demoState_def demoTiers_def)
  have off: "spec_fixedOffset (selectedDuration (demoState ''1m'')) = Some (Months 1)"
    by (simp add: demoState_def spec_fixedOffset_def)
  have fits: "dayExistsAfter (envZone (demoEnv springForwardZone 1739638800000)) (Months 1)
                (envNow (demoEnv springForwardZone 1739638800000))"
    by code_simp
  have shown: "localTimeExists (envZone (demoEnv springForwardZone 1739638800000))
                 (targetLocalTime (envZone (demoEnv springForwardZone 1739638800000)) (Months 1)
                    (envNow (demoEnv springForwardZone 1739638800000)))"
    by code_simp
  have row: "insertedAds
        (handlePaymentConfirm (demoEnv springForwardZone 1739638800000) (demoState ''1m''))
      = [\<lparr>franchise_id = ''franchise-1'', amount = 300,
          start_date = 1739638800000, end_date = 1742054400000,
          status = ''pending_payment'', payment_status = ''pending''\<rparr>]"
    by code_simp
  show ?thesis
    using handlePaymentConfirm_end_date [OF tier off fits shown] row by blast
qed

text \<open>
  In the same zone, a week from 5 March 2025, 12:00 local time (17:00 UTC), ends on
  12 March at 12:00 local time (16:00 UTC): seven local days on, and seven times 24
  hours less one hour later. A week from 2 March, 02:30 local time, leads to a local
  time that the clock change skips; the end date is then 9 March, 03:30 local time.
\<close>

lemma handlePaymentConfirm_across_clock_change:
  "computeEndDate springForwardZone 1741194000000 ''1w'' = 1741795200000
   \<and> spec_startPlus springForwardZone (Days 7) 1741194000000 1741795200000
   \<and> 1741795200000 = 1741194000000 + 7 * msPerDay - 3600000"
  by code_simp

lemma handlePaymentConfirm_skipped_local_time:
  "\<not> localTimeExists springForwardZone (targetLocalTime springForwardZone (Days 7) 1740900600000)
   \<and> LocalTime springForwardZone (computeEndDate springForwardZone 1740900600000 ''1w'')
       = LocalTime springForwardZone 1740900600000 + 7 * msPerDay + 3600000"
  by code_simp

text \<open>
  Claim C1 as stated fails when the start's day of the month does not exist in the
  target month. In a zone that keeps UTC, from 31 January 2025, 12:00, the duration \<open>1m\<close>
  gives an end date of 3 March 2025, 12:00: \<open>setMonth\<close> makes it 31 February, which runs
  on into March, two calendar months after the start and on another day of the month.
\<close>

theorem handlePaymentConfirm_end_date_counterexample:
  "spec_fixedOffset ''1m'' = Some (Months 1)
   \<and> insertedAds (handlePaymentConfirm (demoEnv (fixedZone 0) 1738324800000) (demoState ''1m''))
      = [\<lparr>franchise_id = ''franchise-1'', amount = 300,
          start_date = 1738324800000, end_date = 1741003200000,
          status = ''pending_payment'', payment_status = ''pending''\<rparr>]
   \<and> (getFullYear (fixedZone 0) 1738324800000, getMonth (fixedZone 0) 1738324800000,
       getDate (fixedZone 0) 1738324800000)
      = (2025, 0, 31)
   \<and> (getFullYear (fixedZone 0) 1741003200000, getMonth (fixedZone 0) 1741003200000,
       getDate (fixedZone 0) 1741003200000)
      = (2025, 2, 3)
   \<and> \<not> spec_startPlus (fixedZone 0) (Months 1) 1738324800000 1741003200000"
  by code_simp

text \<open>
  Claim C8. When a pricing tier matches the selected duration, \<open>handlePaymentConfirm\<close>
  asks for exactly one row to be inserted: for the selected franchise, with status
  \<open>pending_payment\<close>, payment status \<open>pending\<close>, the price of the (first) matching tier as
  its amount and the current time as its start. When no tier matches, it inserts
  nothing and fails with the error \<open>Invalid duration selected\<close>, which it logs and shows.
\<close>

theorem handlePaymentConfirm_row:
  "(case find (\<lambda>tier. duration tier = selectedDuration st) (pricingTiers st) of
      Some tier \<Rightarrow>
        duration tier = selectedDuration st
        \<and> insertedAds (handlePaymentConfirm env st) =
            [\<lparr>franchise_id = selectedFranchise st, amount = price tier,
              start_date = envNow env,
              end_date = computeEndDate (envZone env) (envNow env) (selectedDuration st),
              status = ''pending_payment'', payment_status = ''pending''\<rparr>]
    | None \<Rightarrow>
        insertedAds (handlePaymentConfirm env st) = []
        \<and> errorShown e (handlePaymentConfirm env st) = ''Invalid duration selected''
        \<and> handlePaymentConfirm env st =
            [SetProcessing True, SetError [], ConsoleError ''Invalid duration selected'',
             SetError ''Invalid duration selected'', SetProcessing False])"
proof (cases "find (\<lambda>tier. duration tier = selectedDuration st) (pricingTiers st)")
  case None
  then show ?thesis by (simp add: handlePaymentConfirm_no_tier)
next
  case (Some tier)
  then have "duration tier = selectedDuration st" by (auto simp: find_Some_iff)
  then show ?thesis using Some by (simp add: handlePaymentConfirm_inserts)
qed

text \<open>
  Claim C10. When the selected duration has a pricing tier but is none of \<open>1w\<close>, \<open>2w\<close>,
  \<open>1m\<close>, \<open>6m\<close>, no branch of the \<open>switch\<close> runs: the end date stays equal to the start
  date, and the row is inserted all the same, with status \<open>pending_payment\<close>.
\<close>

theorem handlePaymentConfirm_unknown_duration:
  assumes "find (\<lambda>tier. duration tier = selectedDuration st) (pricingTiers st) = Some tier"
    and "selectedDuration st \<notin> {''1w'', ''2w'', ''1m'', ''6m''}"
  shows "insertedAds (handlePaymentConfirm env st) =
           [\<lparr>franchise_id = selectedFranchise st, amount = price tier,
             start_date = envNow env, end_date = envNow env,
             status = ''pending_payment'', payment_status = ''pending''\<rparr>]"
  using assms(2)
  by (simp add: handlePaymentConfirm_inserts [OF assms(1)] computeEndDate_def)

theorem handlePaymentConfirm_unknown_duration_witness:
  "insertedAds (handlePaymentConfirm (demoEnv (fixedZone 0) 1738324800000) (demoState ''3m'')) =
     [\<lparr>franchise_id = ''franchise-1'', amount = 800,
       start_date = 1738324800000, end_date = 1738324800000,
       status = ''pending_payment'', payment_status = ''pending''\<rparr>]"
proof -
  have tier: "find (\<lambda>tier. duration tier = selectedDuration (demoState ''3m''))
                (pricingTiers (demoState ''3m'')) = Some \<lparr>duration = ''3m'', price = 800\<rparr>"
    by (simp add: demoState_def demoTiers_def)
  have other: "selectedDuration (demoState ''3m'') \<notin> {''1w'', ''2w'', ''1m'', ''6m''}"
    by (simp add: demoState_def)
  show ?thesis
    using handlePaymentConfirm_unknown_duration
      [OF tier other, of "demoEnv (fixedZone 0) 1738324800000"]
    by (simp add: demoState_def demoEnv_def)
qed

section \<open>Franchisor login: \<open>FranchisorLogin.handleSubmit\<close>\<close>

text \<open>
  The second component of \<open>src/unnamed/part_001\<close>. A profile row as the handler reads it:
  \<open>user_type\<close> and \<open>status\<close>, either of which may be null.
\<close>

record LoginProfile =
  user_type :: "string option"
  profile_status :: "string option"

text \<open>
  What the backend answers during one login: the error of \<open>signInWithPassword\<close>, the id
  of the session's user (\<open>(await supabase.auth.getUser()).data.user?.id\<close>), the profile
  read (an error message, or the row, which optional chaining allows to be null), the
  error of the \<open>last_login\<close> update, and the clock.
\<close>

record LoginEnv =
  signInError :: "string option"
  sessionUserId :: "string option"
  profileResult :: "string + LoginProfile option"
  updateError :: "string option"
  loginNow :: int

datatype login_effect =
    SetLoading bool
  | SetLoginError string
  | SignInWithPassword string string
  | GetSessionUser
  | SelectProfile "string option"
  | SignOut
  | UpdateLastLogin "string option" int
  | NavigateTo string
  | LogLoginError string

definition pendingMessage :: string where
  "pendingMessage = ''Your account is still awaiting approval. Please check your email for confirmation once your account has been approved.''"

definition rejectedMessage :: string where
  "rejectedMessage = ''Your account application has been rejected. Please contact support for more information.''"

text \<open>\<open>s.includes(sub)\<close> on strings.\<close>

definition str_includes :: "string \<Rightarrow> string \<Rightarrow> bool" where
  "str_includes s sub = sublist sub s"

definition FranchisorLogin_handleSubmit_try ::
  "LoginEnv \<Rightarrow> string \<Rightarrow> string \<Rightarrow> login_effect list \<times> string option" where
  "FranchisorLogin_handleSubmit_try env email password =
     (case signInError env of
        Some thrown \<Rightarrow> ([SignInWithPassword email password], Some thrown)
      | None \<Rightarrow>
          (let fetched = [SignInWithPassword email password, GetSessionUser,
                          SelectProfile (sessionUserId env)]
           in case profileResult env of
                Inl profileError \<Rightarrow> (fetched, Some profileError)
              | Inr profile \<Rightarrow>
                  if (case profile of None \<Rightarrow> None | Some p \<Rightarrow> user_type p)
                       \<noteq> Some ''franchisor''
                  then (fetched, Some ''Unauthorized access'')
                  else if (case profile of None \<Rightarrow> None | Some p \<Rightarrow> profile_status p)
                            = Some ''pending''
                  then (fetched @ [SignOut], Some pendingMessage)
                  else if (case profile of None \<Rightarrow> None | Some p \<Rightarrow> profile_status p)
                            = Some ''rejected''
                  then (fetched @ [SignOut], Some rejectedMessage)
                  else (fetched
                        @ [GetSessionUser, UpdateLastLogin (sessionUserId env) (loginNow env)]
                        @ (case updateError env of
                             None \<Rightarrow> []
                           | Some failed \<Rightarrow> [LogLoginError failed])
                        @ [NavigateTo ''/franchisor/dashboard''], None)))"

definition FranchisorLogin_handleSubmit ::
  "LoginEnv \<Rightarrow> string \<Rightarrow> string \<Rightarrow> login_effect list" where
  "FranchisorLogin_handleSubmit env email password =
     (let (done, thrown) = FranchisorLogin_handleSubmit_try env email password in
      [SetLoading True, SetLoginError []] @ done
      @ (case thrown of
           None \<Rightarrow> []
         | Some message \<Rightarrow>
             [LogLoginError message, SetLoginError message]
             @ (if str_includes message ''Invalid login credentials''
                then [SetLoginError ''Invalid email or password''] else []))
      @ [SetLoading False])"

fun loginErrorShown :: "string \<Rightarrow> login_effect list \<Rightarrow> string" where
  "loginErrorShown e [] = e"
| "loginErrorShown e (SetLoginError m # es) = loginErrorShown m es"
| "loginErrorShown e (_ # es) = loginErrorShown e es"

fun navigations :: "login_effect list \<Rightarrow> string list" where
  "navigations [] = []"
| "navigations (NavigateTo path # es) = path # navigations es"
| "navigations (_ # es) = navigations es"

definition statusMessage :: "string \<Rightarrow> string" where
  "statusMessage s = (if s = ''pending'' then pendingMessage else rejectedMessage)"

lemma pending_not_credentials: "\<not> str_includes pendingMessage ''Invalid login credentials''"
  unfolding str_includes_def pendingMessage_def by code_simp

lemma rejected_not_credentials: "\<not> str_includes rejectedMessage ''Invalid login credentials''"
  unfolding str_includes_def rejectedMessage_def by code_simp

lemma messages_distinct: "pendingMessage \<noteq> rejectedMessage"
  by (simp add: pendingMessage_def rejectedMessage_def)

text \<open>
  Claim C2. When a franchisor signs in successfully and the profile read returns a
  franchisor profile whose status is \<open>pending\<close> or \<open>rejected\<close>, the handler signs the
  session out and then fails with the message of that status, which is logged and left
  on screen; it never navigates. The two messages differ.
\<close>

theorem FranchisorLogin_unapproved:
  assumes "signInError env = None"
    and "profileResult env = Inr (Some p)"
    and "user_type p = Some ''franchisor''"
    and "profile_status p = Some s"
    and "s = ''pending'' \<or> s = ''rejected''"
  shows "FranchisorLogin_handleSubmit env email password =
           [SetLoading True, SetLoginError [], SignInWithPassword email password,
            GetSessionUser, SelectProfile (sessionUserId env), SignOut,
            LogLoginError (statusMessage s), SetLoginError (statusMessage s),
            SetLoading False]
         \<and> loginErrorShown e (FranchisorLogin_handleSubmit env email password)
             = statusMessage s
         \<and> navigations (FranchisorLogin_handleSubmit env email password) = []
         \<and> statusMessage ''pending'' \<noteq> statusMessage ''rejected''"
proof -
  have run: "FranchisorLogin_handleSubmit env email password =
           [SetLoading True, SetLoginError [], SignInWithPassword email password,
            GetSessionUser, SelectProfile (sessionUserId env), SignOut,
            LogLoginError (statusMessage s), SetLoginError (statusMessage s),
            SetLoading False]"
    using assms pending_not_credentials rejected_not_credentials
    by (auto simp: FranchisorLogin_handleSubmit_def FranchisorLogin_handleSubmit_try_def
        statusMessage_def)
  have "statusMessage ''pending'' \<noteq> statusMessage ''rejected''"
    using messages_distinct by (simp add: statusMessage_def)
  then show ?thesis by (simp add: run)
qed

definition demoLoginEnv :: "string \<Rightarrow> LoginEnv" where
  "demoLoginEnv s =
     \<lparr>signInError = None, sessionUserId = Some ''user-1'',
      profileResult = Inr (Some \<lparr>user_type = Some ''franchisor'', profile_status = Some s\<rparr>),
      updateError = None, loginNow = 1738324800000\<rparr>"

theorem FranchisorLogin_unapproved_witness:
  "FranchisorLogin_handleSubmit (demoLoginEnv ''rejected'') ''a@b.example'' ''secret'' =
     [SetLoading True, SetLoginError [], SignInWithPassword ''a@b.example'' ''secret'',
      GetSessionUser, SelectProfile (Some ''user-1''), SignOut,
      LogLoginError rejectedMessage, SetLoginError rejectedMessage, SetLoading False]
   \<and> loginErrorShown []
        (FranchisorLogin_handleSubmit (demoLoginEnv ''rejected'') ''a@b.example'' ''secret'')
       = rejectedMessage
   \<and> navigations
        (FranchisorLogin_handleSubmit (demoLoginEnv ''rejected'') ''a@b.example'' ''secret'')
       = []"
proof -
  have a: "signInError (demoLoginEnv ''rejected'') = None"
    by (simp add: demoLoginEnv_def)
  have b: "profileResult (demoLoginEnv ''rejected'')
             = Inr (Some \<lparr>user_type = Some ''franchisor'', profile_status = Some ''rejected''\<rparr>)"
    by (simp add: demoLoginEnv_def)
  have c: "user_type \<lparr>user_type = Some ''franchisor'', profile_status = Some ''rejected''\<rparr>
             = Some ''franchisor''"
    by simp
  have d: "profile_status \<lparr>user_type = Some ''franchisor'', profile_status = Some ''rejected''\<rparr>
             = Some ''rejected''"
    by simp
  have e: "''rejected'' = ''pending'' \<or> ''rejected'' = ''rejected''"
    by simp
  show ?thesis
    using FranchisorLogin_unapproved [OF a b c d e, of "''a@b.example''" "''secret''" "[]"]
    by (simp add: statusMessage_def demoLoginEnv_def)
qed

section \<open>Leads page: \<open>handleViewLead\<close> and \<open>updateLeadStatus\<close>\<close>

text \<open>\<open>src/pages/franchisor/Leads.tsx\<close>. A lead as the page holds it.\<close>

record Lead =
  lead_id :: string
  lead_name :: string
  lead_email :: string
  lead_phone :: string
  lead_message :: string
  lead_status :: string
  lead_created_at :: string
  lead_franchise_name :: string

record LeadsState =
  leads :: "Lead list"
  leadsError :: string
  selectedLead :: "Lead option"
  isModalOpen :: bool

text \<open>
  What a handler sends out: the update of one lead's status in \<open>franchise_leads\<close>
  (\<open>.update({ status }).eq('id', leadId)\<close>) and a line on the console.
\<close>

datatype lead_effect =
    UpdateLeadStatus string string
  | LogLeadError string

text \<open>
  \<open>updateLeadStatus\<close>, given the error the update comes back with, if any. Local state
  changes only after the backend accepted the update.
\<close>

definition updateLeadStatus ::
  "string option \<Rightarrow> LeadsState \<Rightarrow> string \<Rightarrow> string \<Rightarrow> LeadsState \<times> lead_effect list" where
  "updateLeadStatus outcome st leadId newStatus =
     (case outcome of
        Some err \<Rightarrow>
          (st\<lparr>leadsError := err\<rparr>, [UpdateLeadStatus leadId newStatus, LogLeadError err])
      | None \<Rightarrow>
          (st\<lparr>leads := map (\<lambda>lead. if lead_id lead = leadId
                                     then lead\<lparr>lead_status := newStatus\<rparr> else lead)
                            (leads st)\<rparr>,
           [UpdateLeadStatus leadId newStatus]))"

definition handleViewLead ::
  "string option \<Rightarrow> LeadsState \<Rightarrow> Lead \<Rightarrow> LeadsState \<times> lead_effect list" where
  "handleViewLead outcome st lead =
     (let opened = st\<lparr>selectedLead := Some lead, isModalOpen := True\<rparr> in
      if lead_status lead = ''new''
      then updateLeadStatus outcome opened (lead_id lead) ''contacted''
      else (opened, []))"

text \<open>
  Viewing the lead in row \<open>k\<close> of the table again and again: each click passes the lead
  as the list holds it at that moment, and each update has its own outcome.
\<close>

fun viewRepeatedly ::
  "nat \<Rightarrow> string option list \<Rightarrow> LeadsState \<Rightarrow> LeadsState \<times> lead_effect list" where
  "viewRepeatedly k [] st = (st, [])"
| "viewRepeatedly k (outcome # outcomes) st =
     (let (st1, sent1) = handleViewLead outcome st (leads st ! k);
          (st2, sent2) = viewRepeatedly k outcomes st1
      in (st2, sent1 @ sent2))"

fun statusUpdates :: "lead_effect list \<Rightarrow> (string \<times> string) list" where
  "statusUpdates [] = []"
| "statusUpdates (UpdateLeadStatus leadId newStatus # es) = (leadId, newStatus) # statusUpdates es"
| "statusUpdates (_ # es) = statusUpdates es"

lemma viewRepeatedly_not_new:
  "lead_status (leads st ! k) \<noteq> ''new'' \<Longrightarrow>
     leads (fst (viewRepeatedly k outcomes st)) = leads st
     \<and> snd (viewRepeatedly k outcomes st) = []"
proof (induction outcomes arbitrary: st)
  case Nil
  show ?case by simp
next
  case (Cons outcome outcomes)
  let ?opened = "st\<lparr>selectedLead := Some (leads st ! k), isModalOpen := True\<rparr>"
  have v: "handleViewLead outcome st (leads st ! k) = (?opened, [])"
    using Cons.prems by (simp add: handleViewLead_def)
  have "lead_status (leads ?opened ! k) \<noteq> ''new''" using Cons.prems by simp
  from Cons.IH [OF this] show ?case by (simp add: v split: prod.splits)
qed

lemma view_new_lead:
  assumes "k < length (leads st)" and "lead_status (leads st ! k) = ''new''"
  shows "statusUpdates (snd (handleViewLead outcome st (leads st ! k)))
           = [(lead_id (leads st ! k), ''contacted'')]"
    and "leads (fst (handleViewLead None st (leads st ! k)))
           = map (\<lambda>lead. if lead_id lead = lead_id (leads st ! k)
                          then lead\<lparr>lead_status := ''contacted''\<rparr> else lead) (leads st)"
    and "lead_status (leads (fst (handleViewLead None st (leads st ! k))) ! k) = ''contacted''"
  using assms
  by (simp_all add: handleViewLead_def updateLeadStatus_def Let_def split: option.splits)

text \<open>
  Claim C3. Viewing a lead of the list whose status is \<open>new\<close> sends exactly one update,
  of that lead to \<open>contacted\<close>, whatever the backend answers; when the backend accepts it,
  the list holds the lead as \<open>contacted\<close>. Viewing a lead whose status is not \<open>new\<close> opens
  the modal and changes nothing else. So after the transition, any number of further
  views of that row send no update and leave the list as it is.
\<close>

theorem handleViewLead_once:
  assumes "k < length (leads st)"
    and "lead_status (leads st ! k) = ''new''"
    and "lead_status other \<noteq> ''new''"
  shows "statusUpdates (snd (handleViewLead outcome st (leads st ! k)))
           = [(lead_id (leads st ! k), ''contacted'')]
         \<and> leads (fst (handleViewLead None st (leads st ! k)))
           = map (\<lambda>lead. if lead_id lead = lead_id (leads st ! k)
                          then lead\<lparr>lead_status := ''contacted''\<rparr> else lead) (leads st)
         \<and> handleViewLead outcome st other
           = (st\<lparr>selectedLead := Some other, isModalOpen := True\<rparr>, [])
         \<and> leads (fst (viewRepeatedly k outcomes (fst (handleViewLead None st (leads st ! k)))))
           = leads (fst (handleViewLead None st (leads st ! k)))
         \<and> snd (viewRepeatedly k outcomes (fst (handleViewLead None st (leads st ! k)))) = []"
proof -
  note v = view_new_lead [OF assms(1,2)]
  have "lead_status (leads (fst (handleViewLead None st (leads st ! k))) ! k) \<noteq> ''new''"
    by (simp add: v(3))
  note r = viewRepeatedly_not_new [OF this, of outcomes]
  have "handleViewLead outcome st other
          = (st\<lparr>selectedLead := Some other, isModalOpen := True\<rparr>, [])"
    using assms(3) by (simp add: handleViewLead_def)
  then show ?thesis using v(1,2) r by simp
qed

definition demoLead :: "string \<Rightarrow> string \<Rightarrow> Lead" where
  "demoLead i s =
     \<lparr>lead_id = i, lead_name = ''Ada'', lead_email = ''ada@b.example'', lead_phone = ''0100'',
      lead_message = ''Tell me more'', lead_status = s, lead_created_at = ''2025-01-31'',
      lead_franchise_name = ''Bakery''\<rparr>"

definition demoLeadsState :: LeadsState where
  "demoLeadsState =
     \<lparr>leads = [demoLead ''lead-1'' ''new'', demoLead ''lead-2'' ''qualified''],
      leadsError = [], selectedLead = None, isModalOpen = False\<rparr>"

theorem handleViewLead_once_witness:
  "statusUpdates (snd (handleViewLead (Some ''timeout'') demoLeadsState (leads demoLeadsState ! 0)))
     = [(''lead-1'', ''contacted'')]
   \<and> map lead_status (leads (fst (handleViewLead None demoLeadsState (leads demoLeadsState ! 0))))
     = [''contacted'', ''qualified'']
   \<and> snd (handleViewLead (Some ''timeout'') demoLeadsState (demoLead ''lead-2'' ''qualified''))
     = []
   \<and> snd (viewRepeatedly 0 [None, Some ''timeout'']
            (fst (handleViewLead None demoLeadsState (leads demoLeadsState ! 0)))) = []"
proof -
  have a: "0 < length (leads demoLeadsState)"
    by (simp add: demoLeadsState_def)
  have b: "lead_status (leads demoLeadsState ! 0) = ''new''"
    by (simp add: demoLeadsState_def demoLead_def)
  have c: "lead_status (demoLead ''lead-2'' ''qualified'') \<noteq> ''new''"
    by (simp add: demoLead_def)
  show ?thesis
    using handleViewLead_once [OF a b c, of "Some ''timeout''" "[None, Some ''timeout'']"]
    by (simp add: demoLeadsState_def demoLead_def handleViewLead_def updateLeadStatus_def)
qed

section \<open>Admin approvals: the two \<open>handleApproval\<close> handlers\<close>

text \<open>
  \<open>src/unnamed/part_005\<close> (\<open>AdminFranchiseApprovals\<close>, table \<open>franchises\<close>) and
  \<open>src/unnamed/part_006\<close> (\<open>AdminAccountApprovals\<close>, table \<open>profiles\<close>). Of a row of either
  table the handlers touch the status and the approval time; \<open>approved_at\<close> is a time
  value or null.
\<close>

record ModeratedRow =
  row_id :: string
  row_status :: string
  approved_at :: "int option"
  row_created_at :: string

text \<open>The rows the two pages list.\<close>

record PendingFranchise =
  pf_id :: string
  pf_name :: string
  pf_location :: string
  pf_created_at :: string

record PendingProfile =
  pp_id :: string
  pp_full_name :: string
  pp_company_name :: "string option"
  pp_created_at :: string

record AuthUser =
  au_id :: string
  au_email :: "string option"

record PendingAccount =
  pa_id :: string
  pa_full_name :: string
  pa_email :: string
  pa_company_name :: string
  pa_created_at :: string

text \<open>
  The one kind of write the handlers send, \<open>.update({ status, approved_at }).eq('id', id)\<close>
  on a named table, among the reads, state setters and log lines around it.
\<close>

datatype approval_effect =
    SetProcessingId "string option"
  | UpdateStatus string string string "int option"
  | SelectPendingFranchises
  | SetPendingFranchises "PendingFranchise list"
  | SelectPendingProfiles
  | ListUsers
  | SetPendingAccounts "PendingAccount list"
  | SetApprovalError string
  | SetApprovalLoading bool
  | LogApproval string

record ApprovalEnv =
  approvalNow :: int
  approvalUpdateError :: "string option"
  pendingFranchisesResult :: "string + PendingFranchise list option"
  pendingProfilesResult :: "string + PendingProfile list option"
  listUsersResult :: "string + AuthUser list"

definition fetchPendingFranchises :: "ApprovalEnv \<Rightarrow> approval_effect list" where
  "fetchPendingFranchises env =
     [SelectPendingFranchises]
     @ (case pendingFranchisesResult env of
          Inl err \<Rightarrow> [LogApproval err]
        | Inr None \<Rightarrow> []
        | Inr (Some rows) \<Rightarrow> [SetPendingFranchises rows])
     @ [SetApprovalLoading False]"

definition AdminFranchiseApprovals_handleApproval ::
  "ApprovalEnv \<Rightarrow> string \<Rightarrow> bool \<Rightarrow> approval_effect list" where
  "AdminFranchiseApprovals_handleApproval env franchiseId approved =
     [SetProcessingId (Some franchiseId),
      UpdateStatus ''franchises'' franchiseId
        (if approved then ''approved'' else ''rejected'')
        (if approved then Some (approvalNow env) else None)]
     @ (case approvalUpdateError env of
          Some err \<Rightarrow> [LogApproval err]
        | None \<Rightarrow> fetchPendingFranchises env)
     @ [SetProcessingId None]"

text \<open>
  \<open>new Map(users.map(user => [user.id, user.email]))\<close>: of two users with one id the
  later wins.
\<close>

definition emailMap :: "AuthUser list \<Rightarrow> string \<Rightarrow> string option" where
  "emailMap users i =
     (case map_of (rev (map (\<lambda>user. (au_id user, au_email user)) users)) i of
        None \<Rightarrow> None
      | Some email \<Rightarrow> email)"

definition fetchPendingAccounts :: "ApprovalEnv \<Rightarrow> approval_effect list" where
  "fetchPendingAccounts env =
     [LogApproval ''Fetching pending accounts...'', SelectPendingProfiles]
     @ (case pendingProfilesResult env of
          Inl err \<Rightarrow> [LogApproval err, LogApproval err, SetApprovalError err]
        | Inr None \<Rightarrow> [LogApproval ''Fetched pending profiles:'', SetPendingAccounts []]
        | Inr (Some profiles) \<Rightarrow>
            [LogApproval ''Fetched pending profiles:'', ListUsers]
            @ (case listUsersResult env of
                 Inl err \<Rightarrow> [LogApproval err, LogApproval err, SetApprovalError err]
               | Inr users \<Rightarrow>
                   [LogApproval ''Final pending accounts:'',
                    SetPendingAccounts
                      (map (\<lambda>profile.
                              \<lparr>pa_id = pp_id profile, pa_full_name = pp_full_name profile,
                               pa_email = optOr (emailMap users (pp_id profile)) ''N/A'',
                               pa_company_name = optOr (pp_company_name profile) ''N/A'',
                               pa_created_at = pp_created_at profile\<rparr>)
                           profiles)]))
     @ [SetApprovalLoading False]"

definition AdminAccountApprovals_handleApproval ::
  "ApprovalEnv \<Rightarrow> string \<Rightarrow> bool \<Rightarrow> approval_effect list" where
  "AdminAccountApprovals_handleApproval env accountId approved =
     [SetProcessingId (Some accountId),
      LogApproval ''Processing account'',
      UpdateStatus ''profiles'' accountId
        (if approved then ''approved'' else ''rejected'')
        (if approved then Some (approvalNow env) else None)]
     @ (case approvalUpdateError env of
          Some err \<Rightarrow> [LogApproval err, LogApproval err, SetApprovalError err]
        | None \<Rightarrow> LogApproval ''Account processed successfully'' # fetchPendingAccounts env)
     @ [SetProcessingId None]"

text \<open>
  The writes of a run, and what one such write does to the rows of the table it names:
  every row with that id takes the new status and approval time.
\<close>

fun statusWrites :: "approval_effect list \<Rightarrow> (string \<times> string \<times> string \<times> int option) list" where
  "statusWrites [] = []"
| "statusWrites (UpdateStatus table i s a # es) = (table, i, s, a) # statusWrites es"
| "statusWrites (_ # es) = statusWrites es"

definition applyStatusWrite ::
  "string \<Rightarrow> (string \<times> string \<times> string \<times> int option) \<Rightarrow> ModeratedRow list \<Rightarrow> ModeratedRow list" where
  "applyStatusWrite table w rows =
     (case w of (t, i, s, a) \<Rightarrow>
        if t = table
        then map (\<lambda>row. if row_id row = i then row\<lparr>row_status := s, approved_at := a\<rparr> else row) rows
        else rows)"

lemma statusWrites_append: "statusWrites (xs @ ys) = statusWrites xs @ statusWrites ys"
  by (induction xs rule: statusWrites.induct) simp_all

lemma statusWrites_fetchPendingFranchises: "statusWrites (fetchPendingFranchises env) = []"
  by (simp add: fetchPendingFranchises_def statusWrites_append split: sum.splits option.splits)

lemma statusWrites_fetchPendingAccounts: "statusWrites (fetchPendingAccounts env) = []"
  by (simp add: fetchPendingAccounts_def statusWrites_append split: sum.splits option.splits)

lemma franchise_approval_writes:
  "statusWrites (AdminFranchiseApprovals_handleApproval env i approved) =
     [(''franchises'', i, if approved then ''approved'' else ''rejected'',
       if approved then Some (approvalNow env) else None)]"
  by (simp add: AdminFranchiseApprovals_handleApproval_def statusWrites_append
      statusWrites_fetchPendingFranchises split: option.splits)

lemma account_approval_writes:
  "statusWrites (AdminAccountApprovals_handleApproval env i approved) =
     [(''profiles'', i, if approved then ''approved'' else ''rejected'',
       if approved then Some (approvalNow env) else None)]"
  by (simp add: AdminAccountApprovals_handleApproval_def statusWrites_append
      statusWrites_fetchPendingAccounts split: option.splits)

lemma map_update_distinct:
  assumes "distinct (map f xs)" and "k < length xs"
  shows "map (\<lambda>x. if f x = f (xs ! k) then g x else x) xs = xs[k := g (xs ! k)]"
proof (rule nth_equalityI)
  show "length (map (\<lambda>x. if f x = f (xs ! k) then g x else x) xs) = length (xs[k := g (xs ! k)])"
    by simp
next
  fix j assume "j < length (map (\<lambda>x. if f x = f (xs ! k) then g x else x) xs)"
  then have j: "j < length xs" by simp
  have "f (xs ! j) = f (xs ! k) \<longleftrightarrow> j = k"
    using assms j nth_eq_iff_index_eq [of "map f xs" j k] by auto
  then show "map (\<lambda>x. if f x = f (xs ! k) then g x else x) xs ! j = xs[k := g (xs ! k)] ! j"
    using j by (auto simp: nth_list_update)
qed

text \<open>
  Claim C9. An approval action on a franchise or on a franchisor account sends exactly
  one write, whatever the backend answers: the update of the targeted id to \<open>approved\<close>
  with \<open>approved_at\<close> set to the current time, or to \<open>rejected\<close> with \<open>approved_at\<close> null.
  Everything else the handlers send is a read. On a table whose ids are distinct, that
  write changes the targeted row, whatever its status was, and no other row.
\<close>

theorem handleApproval_flip:
  assumes "distinct (map row_id rows)" and "k < length rows"
  shows "statusWrites (AdminFranchiseApprovals_handleApproval env (row_id (rows ! k)) approved)
           = [(''franchises'', row_id (rows ! k),
               if approved then ''approved'' else ''rejected'',
               if approved then Some (approvalNow env) else None)]
         \<and> statusWrites (AdminAccountApprovals_handleApproval env (row_id (rows ! k)) approved)
           = [(''profiles'', row_id (rows ! k),
               if approved then ''approved'' else ''rejected'',
               if approved then Some (approvalNow env) else None)]
         \<and> fold (applyStatusWrite ''franchises'')
              (statusWrites (AdminFranchiseApprovals_handleApproval env (row_id (rows ! k)) approved))
              rows
           = rows[k := (rows ! k)\<lparr>row_status := if approved then ''approved'' else ''rejected'',
                                  approved_at := if approved then Some (approvalNow env) else None\<rparr>]
         \<and> fold (applyStatusWrite ''profiles'')
              (statusWrites (AdminAccountApprovals_handleApproval env (row_id (rows ! k)) approved))
              rows
           = rows[k := (rows ! k)\<lparr>row_status := if approved then ''approved'' else ''rejected'',
                                  approved_at := if approved then Some (approvalNow env) else None\<rparr>]"
  using map_update_distinct [OF assms, of
      "\<lambda>row. row\<lparr>row_status := if approved then ''approved'' else ''rejected'',
                  approved_at := if approved then Some (approvalNow env) else None\<rparr>"]
  by (simp add: franchise_approval_writes account_approval_writes applyStatusWrite_def)

definition demoRows :: "ModeratedRow list" where
  "demoRows =
     [\<lparr>row_id = ''f-1'', row_status = ''pending'', approved_at = None,
       row_created_at = ''2025-01-30''\<rparr>,
      \<lparr>row_id = ''f-2'', row_status = ''pending'', approved_at = None,
       row_created_at = ''2025-01-31''\<rparr>]"

definition demoApprovalEnv :: ApprovalEnv where
  "demoApprovalEnv =
     \<lparr>approvalNow = 1738324800000, approvalUpdateError = None,
      pendingFranchisesResult = Inr (Some []),
      pendingProfilesResult = Inr (Some []), listUsersResult = Inr []\<rparr>"

theorem handleApproval_flip_witness:
  "statusWrites (AdminFranchiseApprovals_handleApproval demoApprovalEnv ''f-1'' True)
     = [(''franchises'', ''f-1'', ''approved'', Some 1738324800000)]
   \<and> statusWrites (AdminAccountApprovals_handleApproval demoApprovalEnv ''f-1'' True)
     = [(''profiles'', ''f-1'', ''approved'', Some 1738324800000)]
   \<and> fold (applyStatusWrite ''franchises'')
        (statusWrites (AdminFranchiseApprovals_handleApproval demoApprovalEnv ''f-1'' True))
        demoRows
     = [\<lparr>row_id = ''f-1'', row_status = ''approved'', approved_at = Some 1738324800000,
         row_created_at = ''2025-01-30''\<rparr>,
        \<lparr>row_id = ''f-2'', row_status = ''pending'', approved_at = None,
         row_created_at = ''2025-01-31''\<rparr>]"
proof -
  have a: "distinct (map row_id demoRows)"
    by (simp add: demoRows_def)
  have b: "0 < length demoRows"
    by (simp add: demoRows_def)
  show ?thesis
    using handleApproval_flip [OF a b, of demoApprovalEnv True]
    by (simp add: demoRows_def demoApprovalEnv_def applyStatusWrite_def)
qed

section \<open>Franchise forms: \<open>AddFranchise\<close> and \<open>EditFranchise\<close>\<close>

text \<open>
  \<open>src/unnamed/part_001\<close> (first component, \<open>AddFranchise\<close>) and \<open>src/unnamed/part_000\<close>
  (\<open>EditFranchise\<close>). A \<open>File\<close> is known by its name. A success story of the edit form
  also carries the URL of the image it was fetched with, if any.
\<close>

type_synonym File = string

record FAQ =
  question :: string
  answer :: string

record Testimonial =
  authorName :: string
  content :: string

record SuccessStory =
  title :: string
  storyContent :: string
  imageFile :: "File option"

record EditSuccessStory = SuccessStory +
  existingImageUrl :: "string option"

text \<open>
  The form state the two components share, and what each adds. The edit form's gallery
  state is never read by its submit handler and is left out.
\<close>

record FranchiseForm =
  name :: string
  location :: string
  shortDescription :: string
  longDescription :: string
  investmentAmount :: string
  mainImageFile :: "File option"
  selectedMainCategory :: string
  selectedSubCategories :: "string list"
  faqs :: "FAQ list"
  testimonials :: "Testimonial list"

record AddFranchiseState = FranchiseForm +
  galleryFiles :: "File list"
  successStories :: "SuccessStory list"

record EditFranchiseState = FranchiseForm +
  editId :: string
  existingMainImageUrl :: string
  editSuccessStories :: "EditSuccessStory list"

text \<open>
  The requests the forms send to storage and to the database. An upload names the folder
  and the file; the random file name under the folder is not modelled. The details
  rows carry the text of the amount as typed, which the code passes through
  \<open>parseFloat\<close>.
\<close>

datatype form_request =
    Upload string File
  | InsertFranchise string string string string
  | UpdateFranchise string string string int
  | InsertDetails string string string string string
  | UpsertDetails string string string string string
  | DeleteMappings string
  | InsertMapping string string
  | InsertGallery string string
  | DeleteFaqs string
  | InsertFaq string string string
  | DeleteTestimonials string
  | InsertTestimonial string string string
  | DeleteStories string
  | InsertStory string string string string

datatype form_effect =
    Request form_request
  | GetAuthUser
  | SetSaving bool
  | SetIsSubmitting bool
  | SetFormError string
  | NavigateForm string
  | LogFormError string

text \<open>
  What the backend answers: the clock, the signed-in user, the error of each request if
  it fails, the public URL of a file uploaded into a folder, and the id given to a new
  franchise.
\<close>

record FormEnv =
  formNow :: int
  formUser :: "string option"
  respond :: "form_request \<Rightarrow> string option"
  publicUrl :: "string \<Rightarrow> File \<Rightarrow> string"
  newFranchiseId :: string

text \<open>
  A stretch of a handler's \<open>try\<close> block: the effects performed and the message thrown, if
  any. \<open>request\<close> awaits a request and throws its error; \<open>requestUnchecked\<close> awaits a request and
  does not look at the result; \<open>andThen\<close> runs a second stretch unless the first threw;
  \<open>forEach\<close> is a \<open>for ... of\<close> loop.
\<close>

type_synonym outcome = "form_effect list \<times> string option"

definition request :: "FormEnv \<Rightarrow> form_request \<Rightarrow> outcome" where
  "request env r = ([Request r], respond env r)"

definition requestUnchecked :: "form_request \<Rightarrow> outcome" where
  "requestUnchecked r = ([Request r], None)"

definition andThen :: "outcome \<Rightarrow> outcome \<Rightarrow> outcome" where
  "andThen a b =
     (case snd a of
        Some thrown \<Rightarrow> (fst a, Some thrown)
      | None \<Rightarrow> (fst a @ fst b, snd b))"

fun forEach :: "('a \<Rightarrow> outcome) \<Rightarrow> 'a list \<Rightarrow> outcome" where
  "forEach body [] = ([], None)"
| "forEach body (x # xs) = andThen (body x) (forEach body xs)"

definition truthy :: "string \<Rightarrow> bool" where
  "truthy s = (s \<noteq> [])"

text \<open>The loop bodies the two handlers share.\<close>

definition insertMapping :: "FormEnv \<Rightarrow> string \<Rightarrow> string \<Rightarrow> outcome" where
  "insertMapping env franchise categoryId = request env (InsertMapping franchise categoryId)"

definition insertFaq :: "FormEnv \<Rightarrow> string \<Rightarrow> FAQ \<Rightarrow> outcome" where
  "insertFaq env franchise faq =
     (if truthy (question faq) \<and> truthy (answer faq)
      then request env (InsertFaq franchise (question faq) (answer faq))
      else ([], None))"

definition insertTestimonial :: "FormEnv \<Rightarrow> string \<Rightarrow> Testimonial \<Rightarrow> outcome" where
  "insertTestimonial env franchise testimonial =
     (if truthy (authorName testimonial) \<and> truthy (content testimonial)
      then request env (InsertTestimonial franchise (authorName testimonial) (content testimonial))
      else ([], None))"




definition EditFranchise_insertStory :: "FormEnv \<Rightarrow> string \<Rightarrow> EditSuccessStory \<Rightarrow> outcome" where
  "EditFranchise_insertStory env franchise story =
     (if truthy (title story) \<and> truthy (storyContent story)
      then (case imageFile story of
              None \<Rightarrow>
                request env (InsertStory franchise (title story) (storyContent story)
                               (optOr (existingImageUrl story) []))
            | Some file \<Rightarrow>
                andThen (request env (Upload ''success-stories'' file))
                  (request env (InsertStory franchise (title story) (storyContent story)
                                  (publicUrl env ''success-stories'' file))))
      else ([], None))"



definition EditFranchise_handleSubmit_try :: "FormEnv \<Rightarrow> EditFranchiseState \<Rightarrow> outcome" where
  "EditFranchise_handleSubmit_try env st =
     (let mainImageUrl = (case mainImageFile st of
                            None \<Rightarrow> existingMainImageUrl st
                          | Some file \<Rightarrow> publicUrl env ''main-images'' file);
          categoryIds = filter truthy (selectedMainCategory st # selectedSubCategories st)
      in andThen (case mainImageFile st of
                    None \<Rightarrow> ([], None)
                  | Some file \<Rightarrow> request env (Upload ''main-images'' file))
        (andThen (request env (UpdateFranchise (editId st) (name st) (location st) (formNow env)))
        (andThen (request env (UpsertDetails (editId st) (shortDescription st)
                                 (longDescription st) (investmentAmount st) mainImageUrl))
        (andThen (requestUnchecked (DeleteMappings (editId st)))
        (andThen (forEach (insertMapping env (editId st)) categoryIds)
        (andThen (requestUnchecked (DeleteFaqs (editId st)))
        (andThen (forEach (insertFaq env (editId st)) (faqs st))
        (andThen (requestUnchecked (DeleteTestimonials (editId st)))
        (andThen (forEach (insertTestimonial env (editId st)) (testimonials st))
        (andThen (requestUnchecked (DeleteStories (editId st)))
        (andThen (forEach (EditFranchise_insertStory env (editId st)) (editSuccessStories st))
                 ([NavigateForm ''/franchisor/franchises''], None))))))))))))"

definition EditFranchise_handleSubmit :: "FormEnv \<Rightarrow> EditFranchiseState \<Rightarrow> form_effect list" where
  "EditFranchise_handleSubmit env st =
     [SetSaving True, SetFormError []]
     @ fst (EditFranchise_handleSubmit_try env st)
     @ (case snd (EditFranchise_handleSubmit_try env st) of
          None \<Rightarrow> []
        | Some message \<Rightarrow> [LogFormError message, SetFormError message])
     @ [SetSaving False]"

text \<open>
  \<open>handleMainCategoryChange\<close> and \<open>handleSubCategoryChange\<close> (a toggle), the same in
  both forms.
\<close>

definition AddFranchise_handleMainCategoryChange ::
  "AddFranchiseState \<Rightarrow> string \<Rightarrow> AddFranchiseState" where
  "AddFranchise_handleMainCategoryChange st categoryId =
     st\<lparr>selectedMainCategory := categoryId, selectedSubCategories := []\<rparr>"

definition EditFranchise_handleMainCategoryChange ::
  "EditFranchiseState \<Rightarrow> string \<Rightarrow> EditFranchiseState" where
  "EditFranchise_handleMainCategoryChange st categoryId =
     st\<lparr>selectedMainCategory := categoryId, selectedSubCategories := []\<rparr>"

definition AddFranchise_handleSubCategoryChange ::
  "AddFranchiseState \<Rightarrow> string \<Rightarrow> AddFranchiseState" where
  "AddFranchise_handleSubCategoryChange st categoryId =
     st\<lparr>selectedSubCategories :=
          (let prev = selectedSubCategories st in
           if categoryId \<in> set prev then filter (\<lambda>i. i \<noteq> categoryId) prev
           else prev @ [categoryId])\<rparr>"

definition EditFranchise_handleSubCategoryChange ::
  "EditFranchiseState \<Rightarrow> string \<Rightarrow> EditFranchiseState" where
  "EditFranchise_handleSubCategoryChange st categoryId =
     st\<lparr>selectedSubCategories :=
          (let prev = selectedSubCategories st in
           if categoryId \<in> set prev then filter (\<lambda>i. i \<noteq> categoryId) prev
           else prev @ [categoryId])\<rparr>"

text \<open>
  Observing a run: \<open>collect f\<close> gathers what \<open>f\<close> reads off each request sent, in order.
\<close>

definition collect :: "(form_request \<Rightarrow> 'a list) \<Rightarrow> form_effect list \<Rightarrow> 'a list" where
  "collect f run = concat (map (\<lambda>e. case e of Request r \<Rightarrow> f r | _ \<Rightarrow> []) run)"

fun faqRow :: "form_request \<Rightarrow> (string \<times> string \<times> string) list" where
  "faqRow (InsertFaq franchise q a) = [(franchise, q, a)]"
| "faqRow _ = []"

fun testimonialRow :: "form_request \<Rightarrow> (string \<times> string \<times> string) list" where
  "testimonialRow (InsertTestimonial franchise author text) = [(franchise, author, text)]"
| "testimonialRow _ = []"


fun mainImageUpload :: "form_request \<Rightarrow> File list" where
  "mainImageUpload (Upload folder file) = (if folder = ''main-images'' then [file] else [])"
| "mainImageUpload _ = []"

fun detailsImageUrl :: "form_request \<Rightarrow> string list" where
  "detailsImageUrl (UpsertDetails franchise short long invest url) = [url]"
| "detailsImageUrl (InsertDetails franchise short long invest url) = [url]"
| "detailsImageUrl _ = []"

fun mappingRequest :: "form_request \<Rightarrow> form_request list" where
  "mappingRequest (DeleteMappings franchise) = [DeleteMappings franchise]"
| "mappingRequest (InsertMapping franchise categoryId) = [InsertMapping franchise categoryId]"
| "mappingRequest _ = []"

lemma collect_Nil [simp]: "collect f [] = []"
  by (simp add: collect_def)

lemma collect_Cons_Request [simp]: "collect f (Request r # es) = f r @ collect f es"
  by (simp add: collect_def)

lemma collect_append [simp]: "collect f (xs @ ys) = collect f xs @ collect f ys"
  by (simp add: collect_def)

lemma collect_Cons_other [simp]:
  "collect f (GetAuthUser # es) = collect f es"
  "collect f (SetSaving b # es) = collect f es"
  "collect f (SetIsSubmitting b # es) = collect f es"
  "collect f (SetFormError m # es) = collect f es"
  "collect f (NavigateForm p # es) = collect f es"
  "collect f (LogFormError m # es) = collect f es"
  by (simp_all add: collect_def)


lemma collect_andThen:
  "collect f (fst (andThen a b))
     = collect f (fst a) @ (if snd a = None then collect f (fst b) else [])"
  by (simp add: andThen_def split: option.splits)

lemma collect_request [simp]: "collect f (fst (request env r)) = f r"
  by (simp add: request_def)

lemma snd_request [simp]: "snd (request env r) = respond env r"
  by (simp add: request_def)

lemma collect_requestUnchecked [simp]: "collect f (fst (requestUnchecked r)) = f r"
  by (simp add: requestUnchecked_def)

lemma snd_requestUnchecked [simp]: "snd (requestUnchecked r) = None"
  by (simp add: requestUnchecked_def)

lemma forEach_collect_nil:
  assumes "\<And>x. collect f (fst (body x)) = []"
  shows "collect f (fst (forEach body xs)) = []"
  by (induction xs) (simp_all add: collect_andThen assms)



text \<open>An entry is full when both fields of its pair are non-empty.\<close>

definition fullFaq :: "FAQ \<Rightarrow> bool" where
  "fullFaq faq = (question faq \<noteq> [] \<and> answer faq \<noteq> [])"

definition fullTestimonial :: "Testimonial \<Rightarrow> bool" where
  "fullTestimonial testimonial = (authorName testimonial \<noteq> [] \<and> content testimonial \<noteq> [])"



lemma insertMapping_collect [simp]:
  "collect f (fst (insertMapping env i c)) = f (InsertMapping i c)"
  by (simp add: insertMapping_def)

lemma insertFaq_collect [simp]:
  "collect f (fst (insertFaq env i faq))
     = (if fullFaq faq then f (InsertFaq i (question faq) (answer faq)) else [])"
  by (simp add: insertFaq_def fullFaq_def truthy_def)

lemma insertTestimonial_collect [simp]:
  "collect f (fst (insertTestimonial env i t))
     = (if fullTestimonial t then f (InsertTestimonial i (authorName t) (content t)) else [])"
  by (simp add: insertTestimonial_def fullTestimonial_def truthy_def)




lemma EditFranchise_insertStory_other:
  "collect faqRow (fst (EditFranchise_insertStory env i story)) = []"
  "collect testimonialRow (fst (EditFranchise_insertStory env i story)) = []"
  "collect mappingRequest (fst (EditFranchise_insertStory env i story)) = []"
  "collect detailsImageUrl (fst (EditFranchise_insertStory env i story)) = []"
  by (simp_all add: EditFranchise_insertStory_def collect_andThen split: option.splits)






lemma edit_run_collect:
  "collect f (EditFranchise_handleSubmit env st) = collect f (fst (EditFranchise_handleSubmit_try env st))"
  by (simp add: EditFranchise_handleSubmit_def split: option.splits)















definition demoFormEnv :: FormEnv where
  "demoFormEnv =
     \<lparr>formNow = 1738324800000, formUser = Some ''user-1'', respond = (\<lambda>r. None),
      publicUrl = (\<lambda>folder file. folder @ ''/'' @ file), newFranchiseId = ''f-9''\<rparr>"


definition demoEditState :: "File option \<Rightarrow> EditFranchiseState" where
  "demoEditState selected =
     \<lparr>name = ''Bakery'', location = ''Leeds'', shortDescription = ''Bread'',
      longDescription = ''Bread and cakes'', investmentAmount = ''25000'',
      mainImageFile = selected, selectedMainCategory = ''food'',
      selectedSubCategories = [''bakery'', [], ''cafe''],
      faqs = [\<lparr>question = ''Q1'', answer = ''A1''\<rparr>, \<lparr>question = ''Q2'', answer = []\<rparr>],
      testimonials = [\<lparr>authorName = [], content = ''Great''\<rparr>,
                      \<lparr>authorName = ''Ada'', content = ''Great''\<rparr>],
      editId = ''f-1'', existingMainImageUrl = ''https://img.example/old.png'',
      editSuccessStories =
        [\<lparr>title = ''T1'', storyContent = [], imageFile = None, existingImageUrl = None\<rparr>,
         \<lparr>title = ''T2'', storyContent = ''S2'', imageFile = Some ''s.png'',
          existingImageUrl = Some ''https://img.example/s-old.png''\<rparr>]\<rparr>"


text \<open>
  The uploads of a run, each with its folder. \<open>newStoryImages\<close> lists the image files the
  edit form holds for its full success stories: what the story loop uploads.
\<close>

fun anyUpload :: "form_request \<Rightarrow> (string \<times> File) list" where
  "anyUpload (Upload folder file) = [(folder, file)]"
| "anyUpload _ = []"

definition newStoryImages :: "EditSuccessStory list \<Rightarrow> (string \<times> File) list" where
  "newStoryImages stories =
     concat (map (\<lambda>story. if title story \<noteq> [] \<and> storyContent story \<noteq> []
                           then (case imageFile story of
                                   None \<Rightarrow> []
                                 | Some file \<Rightarrow> [(''success-stories'', file)])
                           else [])
                 stories)"

lemma EditFranchise_insertStory_uploads:
  "collect anyUpload (fst (EditFranchise_insertStory env i story)) = newStoryImages [story]"
  by (simp add: EditFranchise_insertStory_def newStoryImages_def truthy_def collect_andThen
      split: option.splits)

lemma newStoryImages_Cons:
  "newStoryImages (story # stories) = newStoryImages [story] @ newStoryImages stories"
  by (simp add: newStoryImages_def)

lemma story_loop_uploads:
  "set (collect anyUpload (fst (forEach (EditFranchise_insertStory env i) stories)))
     \<subseteq> set (newStoryImages stories)"
proof (induction stories)
  case Nil
  show ?case by simp
next
  case (Cons story stories)
  show ?case
    using Cons.IH
    by (subst newStoryImages_Cons)
      (auto simp: collect_andThen EditFranchise_insertStory_uploads)
qed

text \<open>
  Claim C5, as amended. When an edit is submitted with no new main image selected, the
  run uploads no main image: whatever the backend answers, nothing goes into
  \<open>main-images\<close>, and every upload the run makes is the new image file of a success story
  whose title and content are both non-empty. The details write, which is sent as soon
  as the franchise update is accepted, carries the existing image URL held in the form
  state, unchanged.
\<close>

theorem EditFranchise_keeps_image:
  assumes "mainImageFile st = None"
  shows "collect mainImageUpload (EditFranchise_handleSubmit env st) = []
         \<and> set (collect anyUpload (EditFranchise_handleSubmit env st))
             \<subseteq> set (newStoryImages (editSuccessStories st))
         \<and> collect detailsImageUrl (EditFranchise_handleSubmit env st)
             = (if respond env (UpdateFranchise (editId st) (name st) (location st) (formNow env))
                     = None
                then [existingMainImageUrl st] else [])"
proof -
  have story: "collect mainImageUpload (fst (EditFranchise_insertStory env i story)) = []" for i story
    by (simp add: EditFranchise_insertStory_def collect_andThen split: option.splits)
  have a: "collect mainImageUpload (EditFranchise_handleSubmit env st) = []"
    using assms
    by (simp add: edit_run_collect EditFranchise_handleSubmit_try_def Let_def
        collect_andThen forEach_collect_nil story)
  have "collect anyUpload (EditFranchise_handleSubmit env st) = []
        \<or> collect anyUpload (EditFranchise_handleSubmit env st)
            = collect anyUpload
                (fst (forEach (EditFranchise_insertStory env (editId st)) (editSuccessStories st)))"
    using assms
    by (simp add: edit_run_collect EditFranchise_handleSubmit_try_def Let_def
        collect_andThen forEach_collect_nil)
  then have b: "set (collect anyUpload (EditFranchise_handleSubmit env st))
                  \<subseteq> set (newStoryImages (editSuccessStories st))"
    using story_loop_uploads [of env "editId st" "editSuccessStories st"] by auto
  have c: "collect detailsImageUrl (EditFranchise_handleSubmit env st)
             = (if respond env (UpdateFranchise (editId st) (name st) (location st) (formNow env))
                     = None
                then [existingMainImageUrl st] else [])"
    using assms
    by (simp add: edit_run_collect EditFranchise_handleSubmit_try_def Let_def
        collect_andThen forEach_collect_nil EditFranchise_insertStory_other)
  show ?thesis using a b c by simp
qed

text \<open>
  An instance: the edit form with no new main image and no new story image. Nothing at
  all is uploaded, and the details row keeps the old URL.
\<close>

definition demoEditStateNoImages :: EditFranchiseState where
  "demoEditStateNoImages =
     (demoEditState None)
       \<lparr>editSuccessStories :=
          [\<lparr>title = ''T2'', storyContent = ''S2'', imageFile = None,
            existingImageUrl = Some ''https://img.example/s-old.png''\<rparr>]\<rparr>"

theorem EditFranchise_keeps_image_witness:
  "collect mainImageUpload (EditFranchise_handleSubmit demoFormEnv demoEditStateNoImages) = []
   \<and> collect anyUpload (EditFranchise_handleSubmit demoFormEnv demoEditStateNoImages) = []
   \<and> collect detailsImageUrl (EditFranchise_handleSubmit demoFormEnv demoEditStateNoImages)
       = [''https://img.example/old.png'']"
proof -
  have a: "mainImageFile demoEditStateNoImages = None"
    by (simp add: demoEditStateNoImages_def demoEditState_def)
  have r: "respond demoFormEnv r = None" for r
    by (simp add: demoFormEnv_def)
  have n: "newStoryImages (editSuccessStories demoEditStateNoImages) = []"
    by (simp add: demoEditStateNoImages_def newStoryImages_def)
  have u: "existingMainImageUrl demoEditStateNoImages = ''https://img.example/old.png''"
    by (simp add: demoEditStateNoImages_def demoEditState_def)
  show ?thesis
    using EditFranchise_keeps_image [OF a, of demoFormEnv]
    by (simp add: r n u)
qed

text \<open>
  Claim C5 as stated fails: with no new main image selected, a save still uploads the
  new image of a success story. On the form below the run uploads \<open>s.png\<close> into
  \<open>success-stories\<close>.
\<close>

theorem EditFranchise_keeps_image_counterexample:
  "mainImageFile (demoEditState None) = None
   \<and> collect anyUpload (EditFranchise_handleSubmit demoFormEnv (demoEditState None))
       = [(''success-stories'', ''s.png'')]"
  by (simp add: EditFranchise_handleSubmit_def EditFranchise_handleSubmit_try_def Let_def
      andThen_def request_def requestUnchecked_def
      EditFranchise_insertStory_def insertMapping_def insertFaq_def insertTestimonial_def
      truthy_def optOr_def orElse_def demoEditState_def demoFormEnv_def)












text \<open>
  Claim C6. On the add form and on the edit form, changing the main category sets the
  selected main category to the new value and the selected sub-categories to the empty
  list, whatever was selected before (also after any sequence of sub-category
  toggles), and changes nothing else of the form.
\<close>

theorem handleMainCategoryChange_resets:
  "selectedMainCategory (AddFranchise_handleMainCategoryChange st categoryId) = categoryId
   \<and> selectedSubCategories (AddFranchise_handleMainCategoryChange st categoryId) = []
   \<and> (AddFranchise_handleMainCategoryChange st categoryId)
        \<lparr>selectedMainCategory := selectedMainCategory st,
         selectedSubCategories := selectedSubCategories st\<rparr> = st
   \<and> selectedSubCategories
        (AddFranchise_handleMainCategoryChange
           (fold (\<lambda>c s. AddFranchise_handleSubCategoryChange s c) toggles st) categoryId) = []
   \<and> selectedMainCategory (EditFranchise_handleMainCategoryChange st' categoryId) = categoryId
   \<and> selectedSubCategories (EditFranchise_handleMainCategoryChange st' categoryId) = []
   \<and> (EditFranchise_handleMainCategoryChange st' categoryId)
        \<lparr>selectedMainCategory := selectedMainCategory st',
         selectedSubCategories := selectedSubCategories st'\<rparr> = st'
   \<and> selectedSubCategories
        (EditFranchise_handleMainCategoryChange
           (fold (\<lambda>c s. EditFranchise_handleSubCategoryChange s c) toggles st') categoryId) = []"
proof -
  have add: "selectedSubCategories (AddFranchise_handleMainCategoryChange s categoryId) = []" for s
    by (simp add: AddFranchise_handleMainCategoryChange_def)
  have edit: "selectedSubCategories (EditFranchise_handleMainCategoryChange s categoryId) = []" for s
    by (simp add: EditFranchise_handleMainCategoryChange_def)
  show ?thesis
    unfolding add edit
    by (simp add: AddFranchise_handleMainCategoryChange_def
        EditFranchise_handleMainCategoryChange_def)
qed

end
